theory Spec2Isabelle
  imports Main "HOL-Library.Multiset"
begin

section \<open>Data model of package cluster\<close>

text \<open>
  The aggregation layer of mkube-console: \<^verbatim>\<open>NodeClient\<close> (one remote mkube node behind
  HTTP) and \<^verbatim>\<open>Aggregator\<close> (a registry \<^verbatim>\<open>map[string]*NodeClient\<close> with fan-out reads,
  a sequential lookup scan, pod placement and a health checker).

  Go errors are values built at fixed places of the source; each place is a constructor.
\<close>

datatype error =
    TransportError string           \<comment> \<open>\<^verbatim>\<open>http.NewRequestWithContext\<close> or \<^verbatim>\<open>httpClient.Do\<close> failed\<close>
  | HealthCheckStatus string nat    \<comment> \<open>\<^verbatim>\<open>node %s health check returned %d\<close>\<close>
  | RemoteError string              \<comment> \<open>status \<open>\<ge> 400\<close> or undecodable body of a JSON exchange\<close>
  | PodNotFound string string       \<comment> \<open>\<^verbatim>\<open>pod %s/%s not found on any node\<close>\<close>
  | NodeNotFound string             \<comment> \<open>\<^verbatim>\<open>node %q not found\<close>\<close>
  | NoHealthyNodes                  \<comment> \<open>\<^verbatim>\<open>no healthy nodes available\<close>\<close>

text \<open>
  The fields of \<^verbatim>\<open>corev1.Pod\<close> that the package reads or writes. \<^verbatim>\<open>Annotations\<close> is a Go
  map that may be nil: \<open>None\<close> is the nil map.
\<close>

record Pod =
  Namespace :: string
  PodName :: string
  Annotations :: "(string \<rightharpoonup> string) option"
  NodeName :: string                \<comment> \<open>\<^verbatim>\<open>pod.Spec.NodeName\<close>\<close>
  Phase :: string                   \<comment> \<open>\<^verbatim>\<open>pod.Status.Phase\<close>\<close>

record PodList =
  Items :: "Pod list"

record CoreNode =
  NodeObjName :: string

definition PodRunning :: string where
  "PodRunning = ''Running''"

text \<open>
  \<^verbatim>\<open>time.Time\<close> as a count of clock ticks; the zero value of the type is \<open>0\<close>.
\<close>

type_synonym time = nat

definition zero_time :: time where
  "zero_time = 0"

record NodeClient =
  Name :: string
  Address :: string
  healthy :: bool
  lastPing :: time

text \<open>
  What one remote node answers. \<open>healthz\<close> is the outcome of the single HTTP exchange
  that \<^verbatim>\<open>Ping\<close> makes; every other field is the outcome of the single exchange made by
  the method of the same name (\<^verbatim>\<open>getJSON\<close>, \<^verbatim>\<open>postJSON\<close> or the hand-written request):
  an error when the request cannot be built, the transport fails, the status is
  \<open>\<ge> 400\<close> or the body does not decode, the decoded value otherwise.
  The network maps a base address to the node behind it.
\<close>

datatype healthz_reply =
    RequestFailed error
  | TransportFailed error
  | StatusCode nat

record remote =
  healthz :: healthz_reply
  list_pods :: "error + PodList"
  get_pod :: "string \<Rightarrow> string \<Rightarrow> error + Pod"
  create_pod :: "Pod \<Rightarrow> error + Pod"
  delete_pod :: "string \<Rightarrow> string \<Rightarrow> error option"
  pod_log :: "string \<Rightarrow> string \<Rightarrow> error + string"
  get_node :: "string \<Rightarrow> error + CoreNode"

type_synonym network = "string \<Rightarrow> remote"

text \<open>The remote calls an operation makes, in the order it makes them, by client name.\<close>

datatype call =
    ListPodsCall string
  | GetPodCall string string string
  | CreatePodCall string Pod
  | DeletePodCall string string string
  | GetPodLogCall string string string
  | GetNodeCall string

section \<open>NodeClient\<close>

definition NewNodeClient :: "string \<Rightarrow> string \<Rightarrow> NodeClient" where
  "NewNodeClient name address =
     \<lparr>Name = name, Address = address, healthy = True, lastPing = zero_time\<rparr>"

text \<open>
  \<^verbatim>\<open>Ping\<close>: one GET of \<^verbatim>\<open>/healthz\<close>; \<open>now\<close> is what \<^verbatim>\<open>time.Now()\<close> returns when it is
  reached. The result is the returned error (\<open>None\<close> is nil) and the client afterwards.
\<close>

definition Ping :: "network \<Rightarrow> time \<Rightarrow> NodeClient \<Rightarrow> error option \<times> NodeClient" where
  "Ping net now c =
     (case healthz (net (Address c)) of
        RequestFailed err \<Rightarrow> (Some err, c\<lparr>healthy := False\<rparr>)
      | TransportFailed err \<Rightarrow> (Some err, c\<lparr>healthy := False\<rparr>)
      | StatusCode s \<Rightarrow>
          if s \<noteq> 200 then (Some (HealthCheckStatus (Name c) s), c\<lparr>healthy := False\<rparr>)
          else (None, c\<lparr>healthy := True, lastPing := now\<rparr>))"

definition IsHealthy :: "NodeClient \<Rightarrow> bool" where
  "IsHealthy c = healthy c"

definition LastPing :: "NodeClient \<Rightarrow> time" where
  "LastPing c = lastPing c"

definition NodeClient_ListPods :: "network \<Rightarrow> NodeClient \<Rightarrow> error + PodList" where
  "NodeClient_ListPods net c = list_pods (net (Address c))"

definition NodeClient_GetPod :: "network \<Rightarrow> NodeClient \<Rightarrow> string \<Rightarrow> string \<Rightarrow> error + Pod" where
  "NodeClient_GetPod net c ns name = get_pod (net (Address c)) ns name"

definition NodeClient_CreatePod :: "network \<Rightarrow> NodeClient \<Rightarrow> Pod \<Rightarrow> error + Pod" where
  "NodeClient_CreatePod net c pod = create_pod (net (Address c)) pod"

definition NodeClient_DeletePod :: "network \<Rightarrow> NodeClient \<Rightarrow> string \<Rightarrow> string \<Rightarrow> error option" where
  "NodeClient_DeletePod net c ns name = delete_pod (net (Address c)) ns name"

definition NodeClient_GetPodLog :: "network \<Rightarrow> NodeClient \<Rightarrow> string \<Rightarrow> string \<Rightarrow> error + string" where
  "NodeClient_GetPodLog net c ns name = pod_log (net (Address c)) ns name"

definition NodeClient_GetNode :: "network \<Rightarrow> NodeClient \<Rightarrow> error + CoreNode" where
  "NodeClient_GetNode net c = get_node (net (Address c)) (Name c)"

section \<open>Aggregator\<close>

text \<open>
  The registry maps a name to a client. The Go map holds pointers; every client is stored
  under one key only, so the map of client values is the same store, and a write through
  a pointer is an update of the map at that key.
\<close>

record Aggregator =
  clients :: "string \<rightharpoonup> NodeClient"

definition NewAggregator :: "NodeClient list \<Rightarrow> Aggregator" where
  "NewAggregator cs = \<lparr>clients = fold (\<lambda>c m. m(Name c \<mapsto> c)) cs Map.empty\<rparr>"

text \<open>
  \<^verbatim>\<open>for _, c := range a.clients\<close> visits every key once, in an order the Go runtime
  chooses. The order is a parameter \<open>ord\<close> of every operation that ranges over the
  registry; \<open>iteration_order a ord\<close> says that \<open>ord\<close> is such an order, and
  \<open>snapshot a ord\<close> is the slice of clients the loop collects.
\<close>

definition iteration_order :: "Aggregator \<Rightarrow> string list \<Rightarrow> bool" where
  "iteration_order a ord \<longleftrightarrow> distinct ord \<and> set ord = dom (clients a)"

definition snapshot :: "Aggregator \<Rightarrow> string list \<Rightarrow> NodeClient list" where
  "snapshot a ord = List.map_filter (clients a) ord"

text \<open>The write of the provenance annotation, making the map when it is nil.\<close>

definition annotate :: "string \<Rightarrow> Pod \<Rightarrow> Pod" where
  "annotate node pod =
     pod\<lparr>Annotations :=
       Some ((case Annotations pod of None \<Rightarrow> Map.empty | Some m \<Rightarrow> m)(''mkube.io/node'' \<mapsto> node))\<rparr>"

text \<open>
  \<^verbatim>\<open>ListAllPods\<close>: one goroutine per client; a goroutine whose \<^verbatim>\<open>ListPods\<close> fails logs
  and appends nothing, the others append all their pods while holding the mutex. No
  goroutine returns an error, so the group's context is never cancelled by a sibling.
  Here \<open>ord\<close> is the order in which the goroutines take the mutex.
\<close>

definition listed_pods :: "network \<Rightarrow> NodeClient \<Rightarrow> Pod list" where
  "listed_pods net c =
     (case NodeClient_ListPods net c of
        Inl err \<Rightarrow> []
      | Inr list \<Rightarrow> map (annotate (Name c)) (Items list))"

definition ListAllPods :: "network \<Rightarrow> Aggregator \<Rightarrow> string list \<Rightarrow> Pod list \<times> error option" where
  "ListAllPods net a ord = (concat (map (listed_pods net) (snapshot a ord)), None)"

definition listed_node :: "network \<Rightarrow> NodeClient \<Rightarrow> CoreNode list" where
  "listed_node net c =
     (case NodeClient_GetNode net c of
        Inl err \<Rightarrow> []
      | Inr node \<Rightarrow> [node])"

definition ListAllNodes :: "network \<Rightarrow> Aggregator \<Rightarrow> string list \<Rightarrow> CoreNode list \<times> error option" where
  "ListAllNodes net a ord = (concat (map (listed_node net) (snapshot a ord)), None)"

text \<open>\<^verbatim>\<open>GetPod\<close>: the scan over the snapshot, returning at the first client that answers.\<close>

fun GetPod_scan ::
  "network \<Rightarrow> string \<Rightarrow> string \<Rightarrow> NodeClient list \<Rightarrow> (error + Pod \<times> string) \<times> call list" where
  "GetPod_scan net ns name [] = (Inl (PodNotFound ns name), [])"
| "GetPod_scan net ns name (c # cs) =
     (case NodeClient_GetPod net c ns name of
        Inr pod \<Rightarrow> (Inr (annotate (Name c) pod, Name c), [GetPodCall (Name c) ns name])
      | Inl err \<Rightarrow>
          (case GetPod_scan net ns name cs of
             (r, t) \<Rightarrow> (r, GetPodCall (Name c) ns name # t)))"

definition GetPod ::
  "network \<Rightarrow> Aggregator \<Rightarrow> string list \<Rightarrow> string \<Rightarrow> string \<Rightarrow> (error + Pod \<times> string) \<times> call list" where
  "GetPod net a ord ns name = GetPod_scan net ns name (snapshot a ord)"

text \<open>
  \<^verbatim>\<open>CreatePod\<close>. \<open>max_int\<close> is \<^verbatim>\<open>int(^uint(0) >> 1)\<close> on a 64-bit platform. The loop
  state is \<^verbatim>\<open>minPods\<close> and \<^verbatim>\<open>target\<close> (\<open>None\<close> is nil).
\<close>

definition max_int :: nat where
  "max_int = 9223372036854775807"

fun least_pods ::
  "network \<Rightarrow> NodeClient list \<Rightarrow> nat \<Rightarrow> NodeClient option \<Rightarrow> NodeClient option \<times> call list" where
  "least_pods net [] minPods target = (target, [])"
| "least_pods net (c # cs) minPods target =
     (if \<not> IsHealthy c then least_pods net cs minPods target
      else
        (case (case NodeClient_ListPods net c of
                 Inl err \<Rightarrow> least_pods net cs minPods target
               | Inr list \<Rightarrow>
                   if length (Items list) < minPods
                   then least_pods net cs (length (Items list)) (Some c)
                   else least_pods net cs minPods target) of
           (r, t) \<Rightarrow> (r, ListPodsCall (Name c) # t)))"

definition CreatePod ::
  "network \<Rightarrow> Aggregator \<Rightarrow> string list \<Rightarrow> Pod \<Rightarrow> (error + Pod) \<times> call list" where
  "CreatePod net a ord pod =
     (if NodeName pod \<noteq> [] \<and> clients a (NodeName pod) = None
      then (Inl (NodeNotFound (NodeName pod)), [])
      else
        (case (case (if NodeName pod \<noteq> [] then clients a (NodeName pod) else None) of
                 Some c \<Rightarrow> (Some c, [])
               | None \<Rightarrow> least_pods net (snapshot a ord) max_int None) of
           (None, t) \<Rightarrow> (Inl NoHealthyNodes, t)
         | (Some target, t) \<Rightarrow>
             (NodeClient_CreatePod net target pod, t @ [CreatePodCall (Name target) pod])))"

text \<open>\<^verbatim>\<open>DeletePod\<close> and \<^verbatim>\<open>GetPodLog\<close>: find the owner with \<^verbatim>\<open>GetPod\<close>, look it up, delegate.\<close>

definition DeletePod ::
  "network \<Rightarrow> Aggregator \<Rightarrow> string list \<Rightarrow> string \<Rightarrow> string \<Rightarrow> error option \<times> call list" where
  "DeletePod net a ord ns name =
     (case GetPod net a ord ns name of
        (Inl err, t) \<Rightarrow> (Some err, t)
      | (Inr (pod, nodeName), t) \<Rightarrow>
          (case clients a nodeName of
             None \<Rightarrow> (Some (NodeNotFound nodeName), t)
           | Some c \<Rightarrow> (NodeClient_DeletePod net c ns name, t @ [DeletePodCall (Name c) ns name])))"

definition GetPodLog ::
  "network \<Rightarrow> Aggregator \<Rightarrow> string list \<Rightarrow> string \<Rightarrow> string \<Rightarrow> (error + string) \<times> call list" where
  "GetPodLog net a ord ns name =
     (case GetPod net a ord ns name of
        (Inl err, t) \<Rightarrow> (Inl err, t)
      | (Inr (pod, nodeName), t) \<Rightarrow>
          (case clients a nodeName of
             None \<Rightarrow> (Inl (NodeNotFound nodeName), t)
           | Some c \<Rightarrow> (NodeClient_GetPodLog net c ns name, t @ [GetPodLogCall (Name c) ns name])))"

text \<open>
  \<^verbatim>\<open>GetClusterSummary\<close>. Go's \<^verbatim>\<open>int\<close> counters are natural numbers here: they count
  clients and pods held in memory and stay far below \<open>2^63\<close>.
\<close>

record NodeSummary =
  ns_Name :: string
  ns_Healthy :: bool
  ns_PodCount :: nat
  ns_LastPing :: time

record ClusterSummary =
  NodeCount :: nat
  HealthyNodes :: nat
  PodCount :: nat
  RunningPods :: nat
  Nodes :: "NodeSummary list"

definition count_running :: "Pod list \<Rightarrow> nat \<Rightarrow> nat" where
  "count_running pods n = fold (\<lambda>pod k. if Phase pod = PodRunning then k + 1 else k) pods n"

definition summary_step :: "network \<Rightarrow> NodeClient \<Rightarrow> ClusterSummary \<Rightarrow> ClusterSummary" where
  "summary_step net c summary =
     (let ns = \<lparr>ns_Name = Name c, ns_Healthy = IsHealthy c, ns_PodCount = 0, ns_LastPing = LastPing c\<rparr>;
          s1 = (if IsHealthy c then summary\<lparr>HealthyNodes := HealthyNodes summary + 1\<rparr> else summary)
      in case NodeClient_ListPods net c of
           Inr list \<Rightarrow>
             s1\<lparr>PodCount := PodCount s1 + length (Items list),
                RunningPods := count_running (Items list) (RunningPods s1),
                Nodes := Nodes s1 @ [ns\<lparr>ns_PodCount := length (Items list)\<rparr>]\<rparr>
         | Inl err \<Rightarrow> s1\<lparr>Nodes := Nodes s1 @ [ns]\<rparr>)"

definition GetClusterSummary :: "network \<Rightarrow> Aggregator \<Rightarrow> string list \<Rightarrow> ClusterSummary" where
  "GetClusterSummary net a ord =
     fold (summary_step net) (snapshot a ord)
       \<lparr>NodeCount = length (snapshot a ord), HealthyNodes = 0, PodCount = 0,
        RunningPods = 0, Nodes = []\<rparr>"

text \<open>
  \<^verbatim>\<open>pingAll\<close>, one pass of the health checker: \<^verbatim>\<open>Ping\<close> on every client of the snapshot,
  one after another, the error only logged. \<open>clock k\<close> is the time read by the ping of
  the client stored under \<open>k\<close>. The ping writes through the pointer held by the registry.
\<close>

definition ping_key :: "network \<Rightarrow> (string \<Rightarrow> time) \<Rightarrow> string \<Rightarrow> Aggregator \<Rightarrow> Aggregator" where
  "ping_key net clock k a =
     (case clients a k of
        None \<Rightarrow> a
      | Some c \<Rightarrow> a\<lparr>clients := (clients a)(k \<mapsto> snd (Ping net (clock k) c))\<rparr>)"

definition pingAll :: "network \<Rightarrow> (string \<Rightarrow> time) \<Rightarrow> Aggregator \<Rightarrow> string list \<Rightarrow> Aggregator" where
  "pingAll net clock a ord = fold (ping_key net clock) ord a"

definition GetNode :: "network \<Rightarrow> Aggregator \<Rightarrow> string \<Rightarrow> (error + CoreNode) \<times> call list" where
  "GetNode net a name =
     (case clients a name of
        None \<Rightarrow> (Inl (NodeNotFound name), [])
      | Some c \<Rightarrow> (NodeClient_GetNode net c, [GetNodeCall (Name c)]))"

section \<open>Notions used to state the properties\<close>

text \<open>
  Every client is stored under its own name: what \<^verbatim>\<open>NewAggregator\<close> builds, the
  registry being private to the package and never written afterwards.
\<close>

definition registered_by_name :: "Aggregator \<Rightarrow> bool" where
  "registered_by_name a \<longleftrightarrow> (\<forall>k c. clients a k = Some c \<longrightarrow> Name c = k)"

text \<open>The \<^verbatim>\<open>GetPod\<close> calls made to a list of clients, one each, in order.\<close>

definition GetPodCalls :: "string \<Rightarrow> string \<Rightarrow> NodeClient list \<Rightarrow> call list" where
  "GetPodCalls ns name cs = map (\<lambda>c. GetPodCall (Name c) ns name) cs"

text \<open>The registry with the health flag of the client under each key \<open>k\<close> set to \<open>h k\<close>.\<close>

definition override_health :: "(string \<Rightarrow> bool) \<Rightarrow> Aggregator \<Rightarrow> Aggregator" where
  "override_health h a =
     a\<lparr>clients := (\<lambda>k. map_option (\<lambda>c. c\<lparr>healthy := h k\<rparr>) (clients a k))\<rparr>"

text \<open>
  The pod count a client reports, the clients that report one (field \<open>healthy\<close> true
  and \<^verbatim>\<open>ListPods\<close> answered), and the \<^verbatim>\<open>ListPods\<close> calls made to the clients of a list
  whose field \<open>healthy\<close> is true, in order.
\<close>

definition pod_count :: "network \<Rightarrow> NodeClient \<Rightarrow> nat" where
  "pod_count net c =
     (case NodeClient_ListPods net c of Inl err \<Rightarrow> 0 | Inr list \<Rightarrow> length (Items list))"

definition reporting :: "network \<Rightarrow> NodeClient \<Rightarrow> bool" where
  "reporting net c \<longleftrightarrow> healthy c \<and> \<not> isl (NodeClient_ListPods net c)"

text \<open>
  The clients the least-pods loop takes a count from: \<^verbatim>\<open>IsHealthy()\<close> returned true and
  \<^verbatim>\<open>ListPods\<close> returned no error.
\<close>

definition polled :: "network \<Rightarrow> NodeClient \<Rightarrow> bool" where
  "polled net c \<longleftrightarrow> IsHealthy c \<and> \<not> isl (NodeClient_ListPods net c)"

definition ListPodsCalls :: "NodeClient list \<Rightarrow> call list" where
  "ListPodsCalls cs = map (\<lambda>c. ListPodsCall (Name c)) (filter healthy cs)"

text \<open>
  The running pods a client reports (none when \<^verbatim>\<open>ListPods\<close> fails) and the per-node
  entry of the summary.
\<close>

definition running_count :: "network \<Rightarrow> NodeClient \<Rightarrow> nat" where
  "running_count net c =
     (case NodeClient_ListPods net c of
        Inl err \<Rightarrow> 0
      | Inr list \<Rightarrow> length (filter (\<lambda>pod. Phase pod = PodRunning) (Items list)))"

definition node_summary :: "network \<Rightarrow> NodeClient \<Rightarrow> NodeSummary" where
  "node_summary net c =
     \<lparr>ns_Name = Name c, ns_Healthy = healthy c, ns_PodCount = pod_count net c,
      ns_LastPing = lastPing c\<rparr>"

section \<open>The operations with the clients passed through\<close>

text \<open>
  The registry holds pointers and every method of \<^verbatim>\<open>NodeClient\<close> has a pointer receiver,
  so a method, and an operation of the aggregator through it, is able to assign fields of
  a client. In this section every method takes the client it is called on and returns it
  as its body leaves it (\<^verbatim>\<open>Ping\<close> above is of this form already), and every operation
  of the aggregator takes the registry and returns it as the calls it made leave it.
  \<open>call_on k m a\<close> is the call of method \<open>m\<close> through the pointer stored under key \<open>k\<close>:
  it gives the result, the client after the call and the registry with that client
  stored back.
\<close>

definition recv_IsHealthy :: "NodeClient \<Rightarrow> bool \<times> NodeClient" where
  "recv_IsHealthy c = (healthy c, c)"

definition recv_LastPing :: "NodeClient \<Rightarrow> time \<times> NodeClient" where
  "recv_LastPing c = (lastPing c, c)"

definition recv_ListPods :: "network \<Rightarrow> NodeClient \<Rightarrow> (error + PodList) \<times> NodeClient" where
  "recv_ListPods net c = (list_pods (net (Address c)), c)"

definition recv_GetPod ::
  "network \<Rightarrow> string \<Rightarrow> string \<Rightarrow> NodeClient \<Rightarrow> (error + Pod) \<times> NodeClient" where
  "recv_GetPod net ns name c = (get_pod (net (Address c)) ns name, c)"

definition recv_CreatePod :: "network \<Rightarrow> Pod \<Rightarrow> NodeClient \<Rightarrow> (error + Pod) \<times> NodeClient" where
  "recv_CreatePod net pod c = (create_pod (net (Address c)) pod, c)"

definition recv_DeletePod ::
  "network \<Rightarrow> string \<Rightarrow> string \<Rightarrow> NodeClient \<Rightarrow> error option \<times> NodeClient" where
  "recv_DeletePod net ns name c = (delete_pod (net (Address c)) ns name, c)"

definition recv_GetPodLog ::
  "network \<Rightarrow> string \<Rightarrow> string \<Rightarrow> NodeClient \<Rightarrow> (error + string) \<times> NodeClient" where
  "recv_GetPodLog net ns name c = (pod_log (net (Address c)) ns name, c)"

definition recv_GetNode :: "network \<Rightarrow> NodeClient \<Rightarrow> (error + CoreNode) \<times> NodeClient" where
  "recv_GetNode net c = (get_node (net (Address c)) (Name c), c)"

definition call_on ::
  "string \<Rightarrow> (NodeClient \<Rightarrow> 'r \<times> NodeClient) \<Rightarrow> Aggregator \<Rightarrow> ('r \<times> NodeClient \<times> Aggregator) option" where
  "call_on k m a =
     (case clients a k of
        None \<Rightarrow> None
      | Some c \<Rightarrow> (case m c of (r, c') \<Rightarrow> Some (r, c', a\<lparr>clients := (clients a)(k \<mapsto> c')\<rparr>)))"

text \<open>
  \<^verbatim>\<open>ListAllPods\<close> and \<^verbatim>\<open>ListAllNodes\<close>: what one goroutine does with its client, and the
  goroutines one after another in the order \<open>ord\<close> in which they take the mutex. A key of
  \<open>ord\<close> under which nothing is registered is no part of the snapshot.
\<close>

definition ListAllPods_body :: "network \<Rightarrow> NodeClient \<Rightarrow> Pod list \<times> NodeClient" where
  "ListAllPods_body net c =
     (case recv_ListPods net c of
        (Inl err, c') \<Rightarrow> ([], c')
      | (Inr list, c') \<Rightarrow> (map (annotate (Name c')) (Items list), c'))"

fun ListAllPods_run ::
  "network \<Rightarrow> string list \<Rightarrow> Pod list \<Rightarrow> Aggregator \<Rightarrow> Pod list \<times> Aggregator" where
  "ListAllPods_run net [] allPods a = (allPods, a)"
| "ListAllPods_run net (k # ks) allPods a =
     (case call_on k (ListAllPods_body net) a of
        None \<Rightarrow> ListAllPods_run net ks allPods a
      | Some (pods, c, a') \<Rightarrow> ListAllPods_run net ks (allPods @ pods) a')"

definition ListAllPods_st ::
  "network \<Rightarrow> string list \<Rightarrow> Aggregator \<Rightarrow> (Pod list \<times> error option) \<times> Aggregator" where
  "ListAllPods_st net ord a =
     (case ListAllPods_run net ord [] a of (allPods, a') \<Rightarrow> ((allPods, None), a'))"

definition ListAllNodes_body :: "network \<Rightarrow> NodeClient \<Rightarrow> CoreNode list \<times> NodeClient" where
  "ListAllNodes_body net c =
     (case recv_GetNode net c of
        (Inl err, c') \<Rightarrow> ([], c')
      | (Inr node, c') \<Rightarrow> ([node], c'))"

fun ListAllNodes_run ::
  "network \<Rightarrow> string list \<Rightarrow> CoreNode list \<Rightarrow> Aggregator \<Rightarrow> CoreNode list \<times> Aggregator" where
  "ListAllNodes_run net [] nodes a = (nodes, a)"
| "ListAllNodes_run net (k # ks) nodes a =
     (case call_on k (ListAllNodes_body net) a of
        None \<Rightarrow> ListAllNodes_run net ks nodes a
      | Some (node, c, a') \<Rightarrow> ListAllNodes_run net ks (nodes @ node) a')"

definition ListAllNodes_st ::
  "network \<Rightarrow> string list \<Rightarrow> Aggregator \<Rightarrow> (CoreNode list \<times> error option) \<times> Aggregator" where
  "ListAllNodes_st net ord a =
     (case ListAllNodes_run net ord [] a of (nodes, a') \<Rightarrow> ((nodes, None), a'))"

text \<open>\<^verbatim>\<open>GetPod\<close>: the scan, calling \<^verbatim>\<open>GetPod\<close> on one client after another.\<close>

fun GetPod_run ::
  "network \<Rightarrow> string \<Rightarrow> string \<Rightarrow> string list \<Rightarrow> Aggregator \<Rightarrow>
   ((error + Pod \<times> string) \<times> call list) \<times> Aggregator" where
  "GetPod_run net ns name [] a = ((Inl (PodNotFound ns name), []), a)"
| "GetPod_run net ns name (k # ks) a =
     (case call_on k (recv_GetPod net ns name) a of
        None \<Rightarrow> GetPod_run net ns name ks a
      | Some (Inr pod, c, a') \<Rightarrow>
          ((Inr (annotate (Name c) pod, Name c), [GetPodCall (Name c) ns name]), a')
      | Some (Inl err, c, a') \<Rightarrow>
          (case GetPod_run net ns name ks a' of
             ((r, t), a'') \<Rightarrow> ((r, GetPodCall (Name c) ns name # t), a'')))"

definition GetPod_st ::
  "network \<Rightarrow> string list \<Rightarrow> string \<Rightarrow> string \<Rightarrow> Aggregator \<Rightarrow>
   ((error + Pod \<times> string) \<times> call list) \<times> Aggregator" where
  "GetPod_st net ord ns name a = GetPod_run net ns name ord a"

text \<open>
  \<^verbatim>\<open>CreatePod\<close>: what the least-pods loop asks of one client (nothing when it is not
  healthy, else its pod count when \<^verbatim>\<open>ListPods\<close> answers), the loop with \<^verbatim>\<open>minPods\<close> and
  the target pointer, and the delegated create. The target pointer is the key of the
  client. It is nil or the key of a registered client; the case of a key with no client
  only makes the definition total and gives what a nil target gives.
\<close>

definition least_pods_body ::
  "network \<Rightarrow> NodeClient \<Rightarrow> (nat option \<times> call list) \<times> NodeClient" where
  "least_pods_body net c =
     (case recv_IsHealthy c of
        (h, c1) \<Rightarrow>
          if \<not> h then ((None, []), c1)
          else
            (case recv_ListPods net c1 of
               (Inl err, c2) \<Rightarrow> ((None, [ListPodsCall (Name c2)]), c2)
             | (Inr list, c2) \<Rightarrow> ((Some (length (Items list)), [ListPodsCall (Name c2)]), c2)))"

fun least_pods_run ::
  "network \<Rightarrow> string list \<Rightarrow> nat \<Rightarrow> string option \<Rightarrow> Aggregator \<Rightarrow>
   (string option \<times> call list) \<times> Aggregator" where
  "least_pods_run net [] minPods target a = ((target, []), a)"
| "least_pods_run net (k # ks) minPods target a =
     (case call_on k (least_pods_body net) a of
        None \<Rightarrow> least_pods_run net ks minPods target a
      | Some ((None, t), c, a') \<Rightarrow>
          (case least_pods_run net ks minPods target a' of
             ((tg, t'), a'') \<Rightarrow> ((tg, t @ t'), a''))
      | Some ((Some n, t), c, a') \<Rightarrow>
          (case (if n < minPods then least_pods_run net ks n (Some k) a'
                 else least_pods_run net ks minPods target a') of
             ((tg, t'), a'') \<Rightarrow> ((tg, t @ t'), a'')))"

definition CreatePod_st ::
  "network \<Rightarrow> string list \<Rightarrow> Pod \<Rightarrow> Aggregator \<Rightarrow> ((error + Pod) \<times> call list) \<times> Aggregator" where
  "CreatePod_st net ord pod a =
     (if NodeName pod \<noteq> [] \<and> clients a (NodeName pod) = None
      then ((Inl (NodeNotFound (NodeName pod)), []), a)
      else
        (case (if NodeName pod \<noteq> [] then ((Some (NodeName pod), []), a)
               else least_pods_run net ord max_int None a) of
           ((None, t), a1) \<Rightarrow> ((Inl NoHealthyNodes, t), a1)
         | ((Some k, t), a1) \<Rightarrow>
             (case call_on k (recv_CreatePod net pod) a1 of
                None \<Rightarrow> ((Inl NoHealthyNodes, t), a1)
              | Some (r, c, a2) \<Rightarrow> ((r, t @ [CreatePodCall (Name c) pod]), a2))))"

text \<open>\<^verbatim>\<open>DeletePod\<close>, \<^verbatim>\<open>GetPodLog\<close> and \<^verbatim>\<open>GetNode\<close>: a lookup and one delegated call.\<close>

definition DeletePod_st ::
  "network \<Rightarrow> string list \<Rightarrow> string \<Rightarrow> string \<Rightarrow> Aggregator \<Rightarrow>
   (error option \<times> call list) \<times> Aggregator" where
  "DeletePod_st net ord ns name a =
     (case GetPod_st net ord ns name a of
        ((Inl err, t), a1) \<Rightarrow> ((Some err, t), a1)
      | ((Inr (pod, nodeName), t), a1) \<Rightarrow>
          (case call_on nodeName (recv_DeletePod net ns name) a1 of
             None \<Rightarrow> ((Some (NodeNotFound nodeName), t), a1)
           | Some (r, c, a2) \<Rightarrow> ((r, t @ [DeletePodCall (Name c) ns name]), a2)))"

definition GetPodLog_st ::
  "network \<Rightarrow> string list \<Rightarrow> string \<Rightarrow> string \<Rightarrow> Aggregator \<Rightarrow>
   ((error + string) \<times> call list) \<times> Aggregator" where
  "GetPodLog_st net ord ns name a =
     (case GetPod_st net ord ns name a of
        ((Inl err, t), a1) \<Rightarrow> ((Inl err, t), a1)
      | ((Inr (pod, nodeName), t), a1) \<Rightarrow>
          (case call_on nodeName (recv_GetPodLog net ns name) a1 of
             None \<Rightarrow> ((Inl (NodeNotFound nodeName), t), a1)
           | Some (r, c, a2) \<Rightarrow> ((r, t @ [GetPodLogCall (Name c) ns name]), a2)))"

definition GetNode_st ::
  "network \<Rightarrow> string \<Rightarrow> Aggregator \<Rightarrow> ((error + CoreNode) \<times> call list) \<times> Aggregator" where
  "GetNode_st net name a =
     (case call_on name (recv_GetNode net) a of
        None \<Rightarrow> ((Inl (NodeNotFound name), []), a)
      | Some (r, c, a') \<Rightarrow> ((r, [GetNodeCall (Name c)]), a'))"

text \<open>
  \<^verbatim>\<open>GetClusterSummary\<close>: the body of the loop on one client (\<^verbatim>\<open>IsHealthy\<close>, \<^verbatim>\<open>LastPing\<close>,
  \<^verbatim>\<open>IsHealthy\<close> again, \<^verbatim>\<open>ListPods\<close>) and the loop.
\<close>

definition summary_body ::
  "network \<Rightarrow> ClusterSummary \<Rightarrow> NodeClient \<Rightarrow> ClusterSummary \<times> NodeClient" where
  "summary_body net summary c =
     (case recv_IsHealthy c of (h1, c1) \<Rightarrow>
      case recv_LastPing c1 of (lp, c2) \<Rightarrow>
      case recv_IsHealthy c2 of (h2, c3) \<Rightarrow>
      case recv_ListPods net c3 of (r, c4) \<Rightarrow>
        (let ns = \<lparr>ns_Name = Name c, ns_Healthy = h1, ns_PodCount = 0, ns_LastPing = lp\<rparr>;
             s1 = (if h2 then summary\<lparr>HealthyNodes := HealthyNodes summary + 1\<rparr> else summary)
         in case r of
              Inr list \<Rightarrow>
                s1\<lparr>PodCount := PodCount s1 + length (Items list),
                   RunningPods := count_running (Items list) (RunningPods s1),
                   Nodes := Nodes s1 @ [ns\<lparr>ns_PodCount := length (Items list)\<rparr>]\<rparr>
            | Inl err \<Rightarrow> s1\<lparr>Nodes := Nodes s1 @ [ns]\<rparr>,
         c4))"

fun summary_run ::
  "network \<Rightarrow> string list \<Rightarrow> ClusterSummary \<Rightarrow> Aggregator \<Rightarrow> ClusterSummary \<times> Aggregator" where
  "summary_run net [] summary a = (summary, a)"
| "summary_run net (k # ks) summary a =
     (case call_on k (summary_body net summary) a of
        None \<Rightarrow> summary_run net ks summary a
      | Some (summary', c, a') \<Rightarrow> summary_run net ks summary' a')"

definition GetClusterSummary_st ::
  "network \<Rightarrow> string list \<Rightarrow> Aggregator \<Rightarrow> ClusterSummary \<times> Aggregator" where
  "GetClusterSummary_st net ord a =
     summary_run net ord
       \<lparr>NodeCount = length (snapshot a ord), HealthyNodes = 0, PodCount = 0,
        RunningPods = 0, Nodes = []\<rparr> a"

section \<open>The operations as steps on the registry\<close>

text \<open>
  A request to the aggregator, what it returns, and the registry the operation leaves.
  \<^verbatim>\<open>pingAll\<close> is the pass the health checker makes at start and at every tick. A step
  carries the network and clock it runs against and the iteration order the runtime
  picks for it.
\<close>

datatype request =
    ListAllPodsReq
  | ListAllNodesReq
  | GetPodReq string string
  | CreatePodReq Pod
  | DeletePodReq string string
  | GetPodLogReq string string
  | GetClusterSummaryReq
  | GetNodeReq string
  | HealthCheckReq

datatype reply =
    PodsReply "Pod list \<times> error option"
  | NodesReply "CoreNode list \<times> error option"
  | PodReply "(error + Pod \<times> string) \<times> call list"
  | CreatedReply "(error + Pod) \<times> call list"
  | DeletedReply "error option \<times> call list"
  | LogReply "(error + string) \<times> call list"
  | SummaryReply ClusterSummary
  | NodeReply "(error + CoreNode) \<times> call list"
  | NoReply

fun serve ::
  "network \<Rightarrow> (string \<Rightarrow> time) \<Rightarrow> string list \<Rightarrow> request \<Rightarrow> Aggregator \<Rightarrow> reply \<times> Aggregator" where
  "serve net clock ord ListAllPodsReq a =
     (case ListAllPods_st net ord a of (r, a') \<Rightarrow> (PodsReply r, a'))"
| "serve net clock ord ListAllNodesReq a =
     (case ListAllNodes_st net ord a of (r, a') \<Rightarrow> (NodesReply r, a'))"
| "serve net clock ord (GetPodReq ns name) a =
     (case GetPod_st net ord ns name a of (r, a') \<Rightarrow> (PodReply r, a'))"
| "serve net clock ord (CreatePodReq pod) a =
     (case CreatePod_st net ord pod a of (r, a') \<Rightarrow> (CreatedReply r, a'))"
| "serve net clock ord (DeletePodReq ns name) a =
     (case DeletePod_st net ord ns name a of (r, a') \<Rightarrow> (DeletedReply r, a'))"
| "serve net clock ord (GetPodLogReq ns name) a =
     (case GetPodLog_st net ord ns name a of (r, a') \<Rightarrow> (LogReply r, a'))"
| "serve net clock ord GetClusterSummaryReq a =
     (case GetClusterSummary_st net ord a of (r, a') \<Rightarrow> (SummaryReply r, a'))"
| "serve net clock ord (GetNodeReq name) a =
     (case GetNode_st net name a of (r, a') \<Rightarrow> (NodeReply r, a'))"
| "serve net clock ord HealthCheckReq a = (NoReply, pingAll net clock a ord)"

type_synonym step = "network \<times> (string \<Rightarrow> time) \<times> string list \<times> request"

fun run :: "step list \<Rightarrow> Aggregator \<Rightarrow> Aggregator" where
  "run [] a = a"
| "run ((net, clock, ord, req) # steps) a = run steps (snd (serve net clock ord req a))"

section \<open>A three-node cluster for concrete runs\<close>

text \<open>
  Node A holds two pods, node C five, node B is unreachable.
\<close>

definition pod_web :: Pod where
  "pod_web = \<lparr>Namespace = ''default'', PodName = ''web'', Annotations = None,
              NodeName = [], Phase = ''Running''\<rparr>"

definition pod_db :: Pod where
  "pod_db = \<lparr>Namespace = ''default'', PodName = ''db'', Annotations = None,
             NodeName = [], Phase = ''Pending''\<rparr>"

definition node_up :: "Pod list \<Rightarrow> remote" where
  "node_up pods =
     \<lparr>healthz = StatusCode 200,
      list_pods = Inr \<lparr>Items = pods\<rparr>,
      get_pod = (\<lambda>ns name.
        case find (\<lambda>p. Namespace p = ns \<and> PodName p = name) pods of
          Some p \<Rightarrow> Inr p
        | None \<Rightarrow> Inl (RemoteError ''404'')),
      create_pod = (\<lambda>pod. Inr pod),
      delete_pod = (\<lambda>ns name. None),
      pod_log = (\<lambda>ns name. Inr ''log line''),
      get_node = (\<lambda>name. Inr \<lparr>NodeObjName = name\<rparr>)\<rparr>"

definition node_down :: remote where
  "node_down =
     \<lparr>healthz = TransportFailed (TransportError ''connection refused''),
      list_pods = Inl (TransportError ''connection refused''),
      get_pod = (\<lambda>ns name. Inl (TransportError ''connection refused'')),
      create_pod = (\<lambda>pod. Inl (TransportError ''connection refused'')),
      delete_pod = (\<lambda>ns name. Some (TransportError ''connection refused'')),
      pod_log = (\<lambda>ns name. Inl (TransportError ''connection refused'')),
      get_node = (\<lambda>name. Inl (TransportError ''connection refused''))\<rparr>"

definition demo_net :: network where
  "demo_net addr =
     (if addr = ''http://a'' then node_up [pod_web, pod_db]
      else if addr = ''http://c'' then node_up [pod_db, pod_db, pod_db, pod_db, pod_db]
      else node_down)"

definition demo_clients :: "NodeClient list" where
  "demo_clients =
     [NewNodeClient ''A'' ''http://a'', NewNodeClient ''B'' ''http://b'',
      NewNodeClient ''C'' ''http://c'']"

definition demo_agg :: Aggregator where
  "demo_agg = NewAggregator demo_clients"

text \<open>A pod to create, naming a target node (or none, with the empty string).\<close>

definition pod_for :: "string \<Rightarrow> Pod" where
  "pod_for node = \<lparr>Namespace = ''default'', PodName = ''job'', Annotations = None,
                   NodeName = node, Phase = ''Pending''\<rparr>"

text \<open>
  The three-node cluster with node A, the least loaded, marked unhealthy, and with every
  node marked unhealthy.
\<close>

definition demo_drained :: Aggregator where
  "demo_drained = override_health (\<lambda>k. k \<noteq> ''A'') demo_agg"

definition demo_all_unhealthy :: Aggregator where
  "demo_all_unhealthy = override_health (\<lambda>k. False) demo_agg"

text \<open>The three-node cluster after one pass of the health checker at time 7.\<close>

definition demo_pinged :: Aggregator where
  "demo_pinged = pingAll demo_net (\<lambda>k. 7) demo_agg [''B'', ''A'', ''C'']"

definition demo_reads :: "step list" where
  "demo_reads =
     [(demo_net, (\<lambda>k. 7), [''B'', ''A'', ''C''], ListAllPodsReq),
      (demo_net, (\<lambda>k. 7), [''C'', ''B'', ''A''], GetPodReq ''default'' ''web''),
      (demo_net, (\<lambda>k. 7), [''B'', ''A'', ''C''], CreatePodReq (pod_for [])),
      (demo_net, (\<lambda>k. 7), [''B'', ''A'', ''C''], DeletePodReq ''default'' ''web''),
      (demo_net, (\<lambda>k. 7), [''B'', ''A'', ''C''], GetClusterSummaryReq)]"

section \<open>The snapshot of the registry\<close>

lemma set_snapshot: "set (snapshot a ord) = {c. \<exists>k\<in>set ord. clients a k = Some c}"
  by (induction ord) (auto simp: snapshot_def split: option.splits)

lemma set_snapshot_ran:
  "iteration_order a ord \<Longrightarrow> set (snapshot a ord) = ran (clients a)"
  by (auto simp: set_snapshot iteration_order_def ran_def dom_def)

lemma snapshot_in_ran: "c \<in> set (snapshot a ord) \<Longrightarrow> c \<in> ran (clients a)"
  by (auto simp: set_snapshot ran_def)

lemma snapshot_map_the:
  "set ord \<subseteq> dom (clients a) \<Longrightarrow> snapshot a ord = map (\<lambda>k. the (clients a k)) ord"
  by (induction ord) (auto simp: snapshot_def)

lemma scan_all_fail:
  "\<forall>c\<in>set cs. isl (NodeClient_GetPod net c ns name) \<Longrightarrow>
   GetPod_scan net ns name cs = (Inl (PodNotFound ns name), GetPodCalls ns name cs)"
  by (induction cs) (auto simp: GetPodCalls_def split: sum.splits)

lemma scan_first_hit:
  "\<forall>d\<in>set pre. isl (NodeClient_GetPod net d ns name) \<Longrightarrow>
   NodeClient_GetPod net c ns name = Inr p \<Longrightarrow>
   GetPod_scan net ns name (pre @ c # post) =
     (Inr (annotate (Name c) p, Name c), GetPodCalls ns name (pre @ [c]))"
  by (induction pre) (auto simp: GetPodCalls_def split: sum.splits)

lemma scan_cases:
  "(\<forall>c\<in>set cs. isl (NodeClient_GetPod net c ns name)) \<or>
   (\<exists>pre c post p. cs = pre @ c # post \<and>
      (\<forall>d\<in>set pre. isl (NodeClient_GetPod net d ns name)) \<and>
      NodeClient_GetPod net c ns name = Inr p)"
proof (cases "\<exists>c\<in>set cs. \<not> isl (NodeClient_GetPod net c ns name)")
  case True
  then obtain pre c post where
    "cs = pre @ c # post" "\<not> isl (NodeClient_GetPod net c ns name)"
    "\<forall>d\<in>set pre. isl (NodeClient_GetPod net d ns name)"
    using split_list_first_prop [of cs "\<lambda>c. \<not> isl (NodeClient_GetPod net c ns name)"] by auto
  then show ?thesis by (cases "NodeClient_GetPod net c ns name") auto
next
  case False
  then show ?thesis by simp
qed

section \<open>The three-node cluster, evaluated\<close>

lemma demo_registry:
  "clients demo_agg =
     [''A'' \<mapsto> NewNodeClient ''A'' ''http://a'', ''B'' \<mapsto> NewNodeClient ''B'' ''http://b'',
      ''C'' \<mapsto> NewNodeClient ''C'' ''http://c'']"
  by (simp add: demo_agg_def NewAggregator_def demo_clients_def NewNodeClient_def)

lemma demo_order_BAC: "iteration_order demo_agg [''B'', ''A'', ''C'']"
  by (auto simp: iteration_order_def demo_registry)

lemma demo_order_CBA: "iteration_order demo_agg [''C'', ''B'', ''A'']"
  by (auto simp: iteration_order_def demo_registry)

lemma demo_snapshot_BAC:
  "snapshot demo_agg [''B'', ''A'', ''C''] =
     [NewNodeClient ''B'' ''http://b'', NewNodeClient ''A'' ''http://a'',
      NewNodeClient ''C'' ''http://c'']"
  by (simp add: snapshot_def demo_registry)

lemma demo_snapshot_CBA:
  "snapshot demo_agg [''C'', ''B'', ''A''] =
     [NewNodeClient ''C'' ''http://c'', NewNodeClient ''B'' ''http://b'',
      NewNodeClient ''A'' ''http://a'']"
  by (simp add: snapshot_def demo_registry)

lemma demo_GetPod_web:
  "GetPod demo_net demo_agg [''B'', ''A'', ''C''] ''default'' ''web'' =
     (Inr (annotate ''A'' pod_web, ''A''),
      [GetPodCall ''B'' ''default'' ''web'', GetPodCall ''A'' ''default'' ''web''])"
  by (simp add: GetPod_def demo_snapshot_BAC NodeClient_GetPod_def NewNodeClient_def
      demo_net_def node_up_def node_down_def pod_web_def pod_db_def)

section \<open>The probe\<close>

text \<open>
  C4. A probe that gets status 200 returns no error, sets \<open>healthy\<close> and stores the
  current time in \<open>lastPing\<close>. Any other outcome (the request cannot be built, the
  transport fails, another status) returns that error from the one exchange made, clears
  \<open>healthy\<close> and changes nothing else, \<open>lastPing\<close> included. A client made by
  \<^verbatim>\<open>NewNodeClient\<close> is healthy and its \<open>lastPing\<close> is the zero time.
\<close>

theorem Ping_probe:
  "(healthz (net (Address c)) = StatusCode 200 \<longrightarrow>
      Ping net now c = (None, c\<lparr>healthy := True, lastPing := now\<rparr>)) \<and>
   (healthz (net (Address c)) \<noteq> StatusCode 200 \<longrightarrow>
      (\<exists>err. fst (Ping net now c) = Some err) \<and>
      snd (Ping net now c) = c\<lparr>healthy := False\<rparr>) \<and>
   (\<forall>err. healthz (net (Address c)) = TransportFailed err \<longrightarrow> fst (Ping net now c) = Some err) \<and>
   (\<forall>err. healthz (net (Address c)) = RequestFailed err \<longrightarrow> fst (Ping net now c) = Some err) \<and>
   (\<forall>s. healthz (net (Address c)) = StatusCode s \<longrightarrow> s \<noteq> 200 \<longrightarrow>
      fst (Ping net now c) = Some (HealthCheckStatus (Name c) s)) \<and>
   healthy (NewNodeClient name address) \<and>
   lastPing (NewNodeClient name address) = zero_time"
  by (simp add: Ping_def NewNodeClient_def split: healthz_reply.split)

theorem Ping_probe_witness:
  "Ping demo_net 42 (NewNodeClient ''A'' ''http://a'') =
     (None, \<lparr>Name = ''A'', Address = ''http://a'', healthy = True, lastPing = 42\<rparr>) \<and>
   Ping demo_net 42 \<lparr>Name = ''B'', Address = ''http://b'', healthy = True, lastPing = 17\<rparr> =
     (Some (TransportError ''connection refused''),
      \<lparr>Name = ''B'', Address = ''http://b'', healthy = False, lastPing = 17\<rparr>)"
proof -
  have up: "healthz (demo_net (Address (NewNodeClient ''A'' ''http://a''))) = StatusCode 200"
    by (simp add: demo_net_def node_up_def NewNodeClient_def)
  have down: "healthz (demo_net (Address \<lparr>Name = ''B'', Address = ''http://b'', healthy = True, lastPing = 17\<rparr>))
      = TransportFailed (TransportError ''connection refused'')"
    by (simp add: demo_net_def node_down_def)
  from Ping_probe [of demo_net "NewNodeClient ''A'' ''http://a''" 42] up
  have a: "Ping demo_net 42 (NewNodeClient ''A'' ''http://a'') =
     (None, \<lparr>Name = ''A'', Address = ''http://a'', healthy = True, lastPing = 42\<rparr>)"
    by (simp add: NewNodeClient_def)
  from Ping_probe [of demo_net "\<lparr>Name = ''B'', Address = ''http://b'', healthy = True, lastPing = 17\<rparr>" 42] down
  have b: "Ping demo_net 42 \<lparr>Name = ''B'', Address = ''http://b'', healthy = True, lastPing = 17\<rparr> =
     (Some (TransportError ''connection refused''),
      \<lparr>Name = ''B'', Address = ''http://b'', healthy = False, lastPing = 17\<rparr>)"
    by (simp add: prod_eq_iff)
  from a b show ?thesis by simp
qed

section \<open>Lookup of a pod\<close>

text \<open>
  C3. \<^verbatim>\<open>GetPod\<close> asks the clients one after another in iteration order. When it
  succeeds, every client before the owner was asked and failed, the owner is the first
  one that answered, no later client was asked, and the pod returned is the owner's
  answer with the owner's name stored under \<^verbatim>\<open>mkube.io/node\<close> in its annotations (a
  map made for it when the answer had none), every other annotation and field as
  answered. When it fails, the error is the not-found error, every registered client was asked and
  every one failed.
\<close>

theorem GetPod_first_success:
  assumes "iteration_order a ord"
  shows "(case GetPod net a ord ns name of
            (Inr (pod, owner), t) \<Rightarrow>
              (\<exists>pre c post p. snapshot a ord = pre @ c # post \<and>
                 (\<forall>d\<in>set pre. isl (NodeClient_GetPod net d ns name)) \<and>
                 NodeClient_GetPod net c ns name = Inr p \<and>
                 c \<in> ran (clients a) \<and>
                 pod = annotate (Name c) p \<and> owner = Name c \<and>
                 Annotations pod =
                   Some ((case Annotations p of None \<Rightarrow> Map.empty | Some m \<Rightarrow> m)
                           (''mkube.io/node'' \<mapsto> owner)) \<and>
                 (\<exists>m. Annotations pod = Some m \<and> m ''mkube.io/node'' = Some owner) \<and>
                 pod\<lparr>Annotations := Annotations p\<rparr> = p \<and>
                 t = GetPodCalls ns name (pre @ [c]))
          | (Inl err, t) \<Rightarrow>
              err = PodNotFound ns name \<and>
              (\<forall>c\<in>ran (clients a). isl (NodeClient_GetPod net c ns name)) \<and>
              t = GetPodCalls ns name (snapshot a ord))"
proof -
  note ran = set_snapshot_ran [OF assms]
  from scan_cases [of "snapshot a ord" net ns name] show ?thesis
  proof
    assume all: "\<forall>c\<in>set (snapshot a ord). isl (NodeClient_GetPod net c ns name)"
    from scan_all_fail [OF all] all ran show ?thesis
      by (simp add: GetPod_def)
  next
    assume "\<exists>pre c post p. snapshot a ord = pre @ c # post \<and>
      (\<forall>d\<in>set pre. isl (NodeClient_GetPod net d ns name)) \<and>
      NodeClient_GetPod net c ns name = Inr p"
    then obtain pre c post p where sp: "snapshot a ord = pre @ c # post"
      and pre: "\<forall>d\<in>set pre. isl (NodeClient_GetPod net d ns name)"
      and hit: "NodeClient_GetPod net c ns name = Inr p"
      by blast
    from sp ran have cran: "c \<in> ran (clients a)" by (metis in_set_conv_decomp)
    from scan_first_hit [OF pre hit, of post] sp
    have g: "GetPod net a ord ns name =
        (Inr (annotate (Name c) p, Name c), GetPodCalls ns name (pre @ [c]))"
      by (simp add: GetPod_def)
    have "\<exists>pre' c' post' p'. snapshot a ord = pre' @ c' # post' \<and>
        (\<forall>d\<in>set pre'. isl (NodeClient_GetPod net d ns name)) \<and>
        NodeClient_GetPod net c' ns name = Inr p' \<and>
        c' \<in> ran (clients a) \<and>
        annotate (Name c) p = annotate (Name c') p' \<and> Name c = Name c' \<and>
        Annotations (annotate (Name c) p) =
          Some ((case Annotations p' of None \<Rightarrow> Map.empty | Some m \<Rightarrow> m)
                  (''mkube.io/node'' \<mapsto> Name c)) \<and>
        (\<exists>m. Annotations (annotate (Name c) p) = Some m \<and>
           m ''mkube.io/node'' = Some (Name c)) \<and>
        (annotate (Name c) p)\<lparr>Annotations := Annotations p'\<rparr> = p' \<and>
        GetPodCalls ns name (pre @ [c]) = GetPodCalls ns name (pre' @ [c'])"
      using sp pre hit cran
      by (intro exI [of _ pre] exI [of _ c] exI [of _ post] exI [of _ p])
        (simp add: annotate_def)
    then show ?thesis
      unfolding g prod.case sum.case .
  qed
qed

theorem GetPod_first_success_witness:
  "iteration_order demo_agg [''B'', ''A'', ''C''] \<and>
   GetPod demo_net demo_agg [''B'', ''A'', ''C''] ''default'' ''web'' =
     (Inr (annotate ''A'' pod_web, ''A''),
      [GetPodCall ''B'' ''default'' ''web'', GetPodCall ''A'' ''default'' ''web'']) \<and>
   (\<exists>pre c post p. snapshot demo_agg [''B'', ''A'', ''C''] = pre @ c # post \<and>
      (\<forall>d\<in>set pre. isl (NodeClient_GetPod demo_net d ''default'' ''web'')) \<and>
      NodeClient_GetPod demo_net c ''default'' ''web'' = Inr p \<and>
      c \<in> ran (clients demo_agg) \<and> Name c = ''A'') \<and>
   (\<exists>m. Annotations (annotate ''A'' pod_web) = Some m \<and> m ''mkube.io/node'' = Some ''A'') \<and>
   Annotations (annotate ''A'' pod_web) = Some [''mkube.io/node'' \<mapsto> ''A''] \<and>
   Annotations pod_web = None"
proof -
  from GetPod_first_success [OF demo_order_BAC, where net = demo_net and ns = "''default''" and name = "''web''"]
  obtain pre c post p where "snapshot demo_agg [''B'', ''A'', ''C''] = pre @ c # post"
      "\<forall>d\<in>set pre. isl (NodeClient_GetPod demo_net d ''default'' ''web'')"
      "NodeClient_GetPod demo_net c ''default'' ''web'' = Inr p"
      "c \<in> ran (clients demo_agg)" "''A'' = Name c"
      "\<exists>m. Annotations (annotate ''A'' pod_web) = Some m \<and> m ''mkube.io/node'' = Some ''A''"
    unfolding demo_GetPod_web prod.case sum.case by blast
  moreover have "Annotations pod_web = None" by (simp add: pod_web_def)
  moreover have "Annotations (annotate ''A'' pod_web) = Some [''mkube.io/node'' \<mapsto> ''A'']"
    by (simp add: annotate_def pod_web_def)
  ultimately show ?thesis using demo_order_BAC demo_GetPod_web by metis
qed

section \<open>The owner found by the scan is registered\<close>

lemma fold_register_names:
  assumes "\<And>k c. m k = Some c \<Longrightarrow> Name c = k"
    and "fold (\<lambda>c m. m(Name c \<mapsto> c)) cs m k = Some c"
  shows "Name c = k"
  using assms
proof (induction cs arbitrary: m)
  case Nil
  then show ?case by simp
next
  case (Cons x xs)
  have "\<And>k c. (m(Name x \<mapsto> x)) k = Some c \<Longrightarrow> Name c = k"
    using Cons.prems(1) by (simp split: if_splits)
  moreover from Cons.prems(2)
  have "fold (\<lambda>c m. m(Name c \<mapsto> c)) xs (m(Name x \<mapsto> x)) k = Some c"
    by (simp only: fold_simps o_apply)
  ultimately show ?case by (rule Cons.IH)
qed

lemma registered_NewAggregator: "registered_by_name (NewAggregator cs)"
  unfolding registered_by_name_def NewAggregator_def
  using fold_register_names [where m = Map.empty and cs = cs] by simp

lemma Ping_Name: "Name (snd (Ping net now c)) = Name c"
  by (simp add: Ping_def split: healthz_reply.split)

lemma Ping_Address: "Address (snd (Ping net now c)) = Address c"
  by (simp add: Ping_def split: healthz_reply.split)

lemma registered_ping_key:
  "registered_by_name a \<Longrightarrow> registered_by_name (ping_key net clock k a)"
  by (auto simp: registered_by_name_def ping_key_def Ping_Name split: option.splits)

lemma registered_pingAll:
  "registered_by_name a \<Longrightarrow> registered_by_name (pingAll net clock a ord)"
  unfolding pingAll_def
  by (induction ord arbitrary: a) (simp_all add: registered_ping_key)

lemma scan_owner:
  "GetPod_scan net ns name cs = (Inr (pod, owner), t) \<Longrightarrow>
   \<exists>c\<in>set cs. Name c = owner \<and> (\<exists>p. NodeClient_GetPod net c ns name = Inr p \<and> pod = annotate owner p)"
  by (induction cs arbitrary: t) (auto split: sum.splits prod.splits)

lemma GetPod_owner:
  assumes "registered_by_name a" and "GetPod net a ord ns name = (Inr (pod, owner), t)"
  shows "\<exists>c. clients a owner = Some c \<and> Name c = owner \<and>
           (\<exists>p. NodeClient_GetPod net c ns name = Inr p \<and> pod = annotate owner p)"
proof -
  from scan_owner [of net ns name "snapshot a ord" pod owner t] assms(2)
  obtain c where c: "c \<in> set (snapshot a ord)" "Name c = owner"
    "\<exists>p. NodeClient_GetPod net c ns name = Inr p \<and> pod = annotate owner p"
    by (auto simp: GetPod_def)
  from c(1) obtain k where "clients a k = Some c" by (auto simp: set_snapshot)
  with assms(1) c(2) have "clients a owner = Some c"
    by (auto simp: registered_by_name_def)
  with c show ?thesis by blast
qed

text \<open>
  C10. The registry built by \<^verbatim>\<open>NewAggregator\<close> stores every client under its
  name, and a pass of the health checker keeps it so. On such a registry, when
  \<^verbatim>\<open>GetPod\<close> succeeds the owner it returns is a key of the registry, so the lookup in
  \<^verbatim>\<open>DeletePod\<close> and in \<^verbatim>\<open>GetPodLog\<close> finds a client and both delegate: the branch
  that reports an unknown node is never taken.
\<close>

theorem owner_lookup_succeeds:
  "registered_by_name (NewAggregator cs) \<and>
   (registered_by_name a \<longrightarrow> registered_by_name (pingAll net' clock a ord')) \<and>
   (registered_by_name a \<longrightarrow> GetPod net a ord ns name = (Inr (pod, owner), t) \<longrightarrow>
      (\<exists>c. clients a owner = Some c \<and> Name c = owner \<and>
         DeletePod net a ord ns name =
           (NodeClient_DeletePod net c ns name, t @ [DeletePodCall owner ns name]) \<and>
         GetPodLog net a ord ns name =
           (NodeClient_GetPodLog net c ns name, t @ [GetPodLogCall owner ns name])))"
proof (intro conjI impI)
  show "registered_by_name (NewAggregator cs)" by (rule registered_NewAggregator)
next
  assume "registered_by_name a"
  then show "registered_by_name (pingAll net' clock a ord')" by (rule registered_pingAll)
next
  assume r: "registered_by_name a" and g: "GetPod net a ord ns name = (Inr (pod, owner), t)"
  from GetPod_owner [OF r g] obtain c where "clients a owner = Some c" "Name c = owner"
    by blast
  with g show "\<exists>c. clients a owner = Some c \<and> Name c = owner \<and>
         DeletePod net a ord ns name =
           (NodeClient_DeletePod net c ns name, t @ [DeletePodCall owner ns name]) \<and>
         GetPodLog net a ord ns name =
           (NodeClient_GetPodLog net c ns name, t @ [GetPodLogCall owner ns name])"
    by (simp add: DeletePod_def GetPodLog_def)
qed

theorem owner_lookup_succeeds_witness:
  "registered_by_name demo_agg \<and>
   GetPod demo_net demo_agg [''B'', ''A'', ''C''] ''default'' ''web'' =
     (Inr (annotate ''A'' pod_web, ''A''),
      [GetPodCall ''B'' ''default'' ''web'', GetPodCall ''A'' ''default'' ''web'']) \<and>
   (\<exists>c. clients demo_agg ''A'' = Some c \<and> Name c = ''A'' \<and>
      DeletePod demo_net demo_agg [''B'', ''A'', ''C''] ''default'' ''web'' =
        (NodeClient_DeletePod demo_net c ''default'' ''web'',
         [GetPodCall ''B'' ''default'' ''web'', GetPodCall ''A'' ''default'' ''web'',
          DeletePodCall ''A'' ''default'' ''web'']))"
proof -
  have r: "registered_by_name demo_agg"
    using owner_lookup_succeeds [of demo_clients] by (simp add: demo_agg_def)
  from owner_lookup_succeeds [where a = demo_agg and net = demo_net
      and ord = "[''B'', ''A'', ''C'']" and ns = "''default''" and name = "''web''"
      and pod = "annotate ''A'' pod_web" and owner = "''A''"
      and t = "[GetPodCall ''B'' ''default'' ''web'', GetPodCall ''A'' ''default'' ''web'']"]
    r demo_GetPod_web
  have "\<exists>c. clients demo_agg ''A'' = Some c \<and> Name c = ''A'' \<and>
      DeletePod demo_net demo_agg [''B'', ''A'', ''C''] ''default'' ''web'' =
        (NodeClient_DeletePod demo_net c ''default'' ''web'',
         [GetPodCall ''B'' ''default'' ''web'', GetPodCall ''A'' ''default'' ''web''] @
          [DeletePodCall ''A'' ''default'' ''web''])"
    by blast
  with r demo_GetPod_web show ?thesis by simp
qed

section \<open>Placement with an explicit target\<close>

lemma CreatePod_named:
  "NodeName pod \<noteq> [] \<Longrightarrow>
   CreatePod net a ord pod =
     (case clients a (NodeName pod) of
        None \<Rightarrow> (Inl (NodeNotFound (NodeName pod)), [])
      | Some c \<Rightarrow> (NodeClient_CreatePod net c pod, [CreatePodCall (Name c) pod]))"
  by (simp add: CreatePod_def split: option.split)

text \<open>
  C5. When the pod names a target node, \<^verbatim>\<open>CreatePod\<close> makes one remote call, the create
  on the client registered under that name, and returns its result; no \<^verbatim>\<open>ListPods\<close>
  call is made to any client, and the iteration order plays no part. When no client is
  registered under the name it fails with the unknown-node error and calls nobody.
\<close>

theorem CreatePod_explicit_target:
  assumes "NodeName pod \<noteq> []"
  shows "(case clients a (NodeName pod) of
            None \<Rightarrow> CreatePod net a ord pod = (Inl (NodeNotFound (NodeName pod)), [])
          | Some c \<Rightarrow>
              CreatePod net a ord pod =
                (NodeClient_CreatePod net c pod, [CreatePodCall (Name c) pod]) \<and>
              (registered_by_name a \<longrightarrow> Name c = NodeName pod)) \<and>
         (\<forall>n. ListPodsCall n \<notin> set (snd (CreatePod net a ord pod))) \<and>
         (\<forall>ord'. CreatePod net a ord' pod = CreatePod net a ord pod)"
  using assms
  by (auto simp: CreatePod_named registered_by_name_def split: option.splits)

lemma demo_create_on_A:
  "NodeClient_CreatePod demo_net (NewNodeClient ''A'' ''http://a'') pod = Inr pod"
  by (simp add: NodeClient_CreatePod_def NewNodeClient_def demo_net_def node_up_def)

theorem CreatePod_explicit_target_witness:
  "NodeName (pod_for ''A'') \<noteq> [] \<and>
   CreatePod demo_net demo_agg [''B'', ''A'', ''C''] (pod_for ''A'') =
     (Inr (pod_for ''A''), [CreatePodCall ''A'' (pod_for ''A'')]) \<and>
   NodeName (pod_for ''Z'') \<noteq> [] \<and>
   CreatePod demo_net demo_agg [''B'', ''A'', ''C''] (pod_for ''Z'') =
     (Inl (NodeNotFound ''Z''), [])"
proof -
  have a: "NodeName (pod_for ''A'') \<noteq> []" and z: "NodeName (pod_for ''Z'') \<noteq> []"
    by (simp_all add: pod_for_def)
  have ca: "clients demo_agg (NodeName (pod_for ''A'')) = Some (NewNodeClient ''A'' ''http://a'')"
    and cz: "clients demo_agg (NodeName (pod_for ''Z'')) = None"
    by (simp_all add: demo_registry pod_for_def)
  from CreatePod_explicit_target [OF a, where a = demo_agg and net = demo_net
      and ord = "[''B'', ''A'', ''C'']"]
  have "CreatePod demo_net demo_agg [''B'', ''A'', ''C''] (pod_for ''A'') =
     (Inr (pod_for ''A''), [CreatePodCall ''A'' (pod_for ''A'')])"
    by (simp add: ca demo_create_on_A) (simp add: NewNodeClient_def)
  moreover from CreatePod_explicit_target [OF z, where a = demo_agg and net = demo_net
      and ord = "[''B'', ''A'', ''C'']"]
  have "CreatePod demo_net demo_agg [''B'', ''A'', ''C''] (pod_for ''Z'') =
     (Inl (NodeNotFound ''Z''), [])"
    by (simp add: cz) (simp add: pod_for_def)
  ultimately show ?thesis using a z by simp
qed

lemma clients_override_health:
  "clients (override_health h a) k = map_option (\<lambda>c. c\<lparr>healthy := h k\<rparr>) (clients a k)"
  by (simp add: override_health_def)

text \<open>
  C9. When the pod names a registered node, the create goes to that node's client also
  when its cached health flag is false; and whatever the health flags of the registry
  are set to, \<^verbatim>\<open>CreatePod\<close> with an explicit target does the same thing: that path never
  reads a flag.
\<close>

theorem CreatePod_explicit_ignores_health:
  assumes "NodeName pod \<noteq> []"
  shows "(\<forall>c. clients a (NodeName pod) = Some c \<longrightarrow> \<not> IsHealthy c \<longrightarrow>
            CreatePod net a ord pod =
              (NodeClient_CreatePod net c pod, [CreatePodCall (Name c) pod])) \<and>
         (\<forall>h. CreatePod net (override_health h a) ord pod = CreatePod net a ord pod)"
  using assms
  by (auto simp: CreatePod_named clients_override_health NodeClient_CreatePod_def
      split: option.splits)

lemma demo_unhealthy_snapshot:
  "snapshot (override_health (\<lambda>k. False) demo_agg) [''B'', ''A'', ''C''] =
     [(NewNodeClient ''B'' ''http://b'')\<lparr>healthy := False\<rparr>,
      (NewNodeClient ''A'' ''http://a'')\<lparr>healthy := False\<rparr>,
      (NewNodeClient ''C'' ''http://c'')\<lparr>healthy := False\<rparr>]"
  by (simp add: snapshot_def clients_override_health demo_registry)

theorem CreatePod_explicit_ignores_health_witness:
  "NodeName (pod_for ''A'') \<noteq> [] \<and>
   clients (override_health (\<lambda>k. False) demo_agg) (NodeName (pod_for ''A'')) =
     Some ((NewNodeClient ''A'' ''http://a'')\<lparr>healthy := False\<rparr>) \<and>
   \<not> IsHealthy ((NewNodeClient ''A'' ''http://a'')\<lparr>healthy := False\<rparr>) \<and>
   CreatePod demo_net (override_health (\<lambda>k. False) demo_agg) [''B'', ''A'', ''C''] (pod_for ''A'') =
     (Inr (pod_for ''A''), [CreatePodCall ''A'' (pod_for ''A'')]) \<and>
   CreatePod demo_net (override_health (\<lambda>k. False) demo_agg) [''B'', ''A'', ''C''] (pod_for []) =
     (Inl NoHealthyNodes, [])"
proof -
  let ?a = "override_health (\<lambda>k. False) demo_agg"
  let ?c = "(NewNodeClient ''A'' ''http://a'')\<lparr>healthy := False\<rparr>"
  have n: "NodeName (pod_for ''A'') \<noteq> []"
    by (simp add: pod_for_def)
  have c: "clients ?a (NodeName (pod_for ''A'')) = Some ?c"
    by (simp add: clients_override_health demo_registry pod_for_def)
  have u: "\<not> IsHealthy ?c"
    by (simp add: IsHealthy_def)
  from CreatePod_explicit_ignores_health [OF n, where a = ?a and net = demo_net
      and ord = "[''B'', ''A'', ''C'']"] c u
  have "CreatePod demo_net ?a [''B'', ''A'', ''C''] (pod_for ''A'') =
          (NodeClient_CreatePod demo_net ?c (pod_for ''A''), [CreatePodCall (Name ?c) (pod_for ''A'')])"
    by blast
  then have d: "CreatePod demo_net ?a [''B'', ''A'', ''C''] (pod_for ''A'') =
          (Inr (pod_for ''A''), [CreatePodCall ''A'' (pod_for ''A'')])"
    by (simp add: NodeClient_CreatePod_def NewNodeClient_def demo_net_def node_up_def)
  have e: "CreatePod demo_net ?a [''B'', ''A'', ''C''] (pod_for []) = (Inl NoHealthyNodes, [])"
    by (simp add: CreatePod_def demo_unhealthy_snapshot IsHealthy_def pod_for_def)
  from n c u d e show ?thesis by simp
qed

section \<open>Delete and log follow the lookup\<close>

lemma scan_fails:
  "fst (GetPod_scan net ns name cs) = Inl err \<Longrightarrow>
   err = PodNotFound ns name \<and> (\<forall>c\<in>set cs. isl (NodeClient_GetPod net c ns name))"
  by (induction cs) (auto split: sum.splits prod.splits)

lemma GetPod_fails:
  assumes "iteration_order a ord" and "fst (GetPod net a ord ns name) = Inl err"
  shows "err = PodNotFound ns name \<and> (\<forall>c\<in>ran (clients a). isl (NodeClient_GetPod net c ns name))"
  using scan_fails [of net ns name "snapshot a ord" err] assms
  by (simp add: GetPod_def set_snapshot_ran)

lemma GetPod_hit:
  assumes "fst (GetPod net a ord ns name) = Inr (pod, owner)"
  shows "\<exists>c\<in>ran (clients a). \<exists>p. NodeClient_GetPod net c ns name = Inr p \<and>
           pod = annotate (Name c) p \<and> owner = Name c"
proof -
  obtain t where "GetPod_scan net ns name (snapshot a ord) = (Inr (pod, owner), t)"
    using assms by (cases "GetPod_scan net ns name (snapshot a ord)") (simp add: GetPod_def)
  from scan_owner [OF this] show ?thesis
    by (auto dest: snapshot_in_ran)
qed

lemma GetPod_order_free:
  assumes o: "iteration_order a ord" and o': "iteration_order a ord'"
    and uniq: "\<forall>c\<in>ran (clients a). \<forall>d\<in>ran (clients a).
        \<not> isl (NodeClient_GetPod net c ns name) \<longrightarrow>
        \<not> isl (NodeClient_GetPod net d ns name) \<longrightarrow> c = d"
  shows "fst (GetPod net a ord' ns name) = fst (GetPod net a ord ns name)"
proof (cases "fst (GetPod net a ord ns name)")
  case (Inl err)
  from GetPod_fails [OF o Inl] have e: "err = PodNotFound ns name"
    and none: "\<forall>c\<in>ran (clients a). isl (NodeClient_GetPod net c ns name)" by simp_all
  show ?thesis
  proof (cases "fst (GetPod net a ord' ns name)")
    case (Inl err')
    with GetPod_fails [OF o' Inl] e \<open>fst (GetPod net a ord ns name) = Inl err\<close>
    show ?thesis by simp
  next
    case (Inr r)
    obtain pod owner where "r = (pod, owner)" by (cases r)
    with Inr GetPod_hit [of net a ord' ns name pod owner] none show ?thesis by auto
  qed
next
  case (Inr r)
  obtain pod owner where r: "r = (pod, owner)" by (cases r)
  from GetPod_hit [of net a ord ns name pod owner] Inr r
  obtain c p where c: "c \<in> ran (clients a)" "NodeClient_GetPod net c ns name = Inr p"
    "pod = annotate (Name c) p" "owner = Name c" by auto
  show ?thesis
  proof (cases "fst (GetPod net a ord' ns name)")
    case (Inl err')
    from GetPod_fails [OF o' Inl] c(1,2) show ?thesis by auto
  next
    case (Inr r')
    obtain pod' owner' where r': "r' = (pod', owner')" by (cases r')
    from GetPod_hit [of net a ord' ns name pod' owner'] Inr r'
    obtain d q where d: "d \<in> ran (clients a)" "NodeClient_GetPod net d ns name = Inr q"
      "pod' = annotate (Name d) q" "owner' = Name d" by auto
    from uniq c(1,2) d(1,2) have "c = d" by auto
    with c d r r' Inr \<open>fst (GetPod net a ord ns name) = Inr r\<close> show ?thesis by simp
  qed
qed

text \<open>
  C7, as amended. \<^verbatim>\<open>DeletePod\<close> and \<^verbatim>\<open>GetPodLog\<close> run the scan of \<^verbatim>\<open>GetPod\<close>
  themselves. When that scan fails they return its error, which is the not-found error,
  and make no further call. When it finds an owner, that name is registered and the one
  further call is the delete (or the log request) on the client of that name. The
  owner is the one a separate \<^verbatim>\<open>GetPod\<close> call returns when that call visits the registry
  in the same order, and, for any two orders, when at most one registered client holds
  the pod. The runtime chooses the order of every \<^verbatim>\<open>range\<close> over the registry anew, so
  without one of the two conditions the owners may differ, as the concrete run below
  shows.
\<close>

theorem DeletePod_GetPodLog_same_owner:
  assumes "registered_by_name a" and "iteration_order a ord" and "iteration_order a ord'"
  shows "(case GetPod net a ord ns name of
            (Inl err, t) \<Rightarrow>
              err = PodNotFound ns name \<and>
              DeletePod net a ord ns name = (Some err, t) \<and>
              GetPodLog net a ord ns name = (Inl err, t)
          | (Inr (pod, owner), t) \<Rightarrow>
              (\<exists>c. clients a owner = Some c \<and> Name c = owner \<and>
                 DeletePod net a ord ns name =
                   (NodeClient_DeletePod net c ns name, t @ [DeletePodCall owner ns name]) \<and>
                 GetPodLog net a ord ns name =
                   (NodeClient_GetPodLog net c ns name, t @ [GetPodLogCall owner ns name]))) \<and>
         ((\<forall>c\<in>ran (clients a). \<forall>d\<in>ran (clients a).
              \<not> isl (NodeClient_GetPod net c ns name) \<longrightarrow>
              \<not> isl (NodeClient_GetPod net d ns name) \<longrightarrow> c = d) \<longrightarrow>
          fst (GetPod net a ord' ns name) = fst (GetPod net a ord ns name))"
proof (intro conjI impI)
  show "case GetPod net a ord ns name of
            (Inl err, t) \<Rightarrow>
              err = PodNotFound ns name \<and>
              DeletePod net a ord ns name = (Some err, t) \<and>
              GetPodLog net a ord ns name = (Inl err, t)
          | (Inr (pod, owner), t) \<Rightarrow>
              (\<exists>c. clients a owner = Some c \<and> Name c = owner \<and>
                 DeletePod net a ord ns name =
                   (NodeClient_DeletePod net c ns name, t @ [DeletePodCall owner ns name]) \<and>
                 GetPodLog net a ord ns name =
                   (NodeClient_GetPodLog net c ns name, t @ [GetPodLogCall owner ns name]))"
  proof (cases "GetPod net a ord ns name")
    case (Pair r t)
    show ?thesis
    proof (cases r)
      case (Inl err)
      with Pair GetPod_fails [OF assms(2), of net ns name err] show ?thesis
        by (simp add: DeletePod_def GetPodLog_def)
    next
      case (Inr po)
      obtain pod owner where po: "po = (pod, owner)" by (cases po)
      from GetPod_owner [OF assms(1), of net ord ns name pod owner t] Pair Inr po
      obtain c where "clients a owner = Some c" "Name c = owner" by auto
      with Pair Inr po show ?thesis
        by (simp add: DeletePod_def GetPodLog_def)
    qed
  qed
next
  assume "\<forall>c\<in>ran (clients a). \<forall>d\<in>ran (clients a).
              \<not> isl (NodeClient_GetPod net c ns name) \<longrightarrow>
              \<not> isl (NodeClient_GetPod net d ns name) \<longrightarrow> c = d"
  with assms(2,3) show "fst (GetPod net a ord' ns name) = fst (GetPod net a ord ns name)"
    by (rule GetPod_order_free)
qed

lemma ran_ABC:
  "ran [''A'' \<mapsto> x, ''B'' \<mapsto> y, ''C'' \<mapsto> z] = {x, y, z}"
  by (simp add: ran_map_upd insert_commute)

lemma demo_ran:
  "ran (clients demo_agg) =
     {NewNodeClient ''A'' ''http://a'', NewNodeClient ''B'' ''http://b'',
      NewNodeClient ''C'' ''http://c''}"
  by (simp only: demo_registry ran_ABC)

lemma demo_web_holders:
  "\<not> isl (NodeClient_GetPod demo_net (NewNodeClient ''A'' ''http://a'') ''default'' ''web'')"
  "isl (NodeClient_GetPod demo_net (NewNodeClient ''B'' ''http://b'') ''default'' ''web'')"
  "isl (NodeClient_GetPod demo_net (NewNodeClient ''C'' ''http://c'') ''default'' ''web'')"
  by (simp_all add: NodeClient_GetPod_def NewNodeClient_def demo_net_def node_up_def
      node_down_def pod_web_def pod_db_def)

lemma demo_web_one_holder:
  "\<forall>c\<in>ran (clients demo_agg). \<forall>d\<in>ran (clients demo_agg).
     \<not> isl (NodeClient_GetPod demo_net c ''default'' ''web'') \<longrightarrow>
     \<not> isl (NodeClient_GetPod demo_net d ''default'' ''web'') \<longrightarrow> c = d"
  unfolding demo_ran using demo_web_holders by blast

theorem DeletePod_GetPodLog_same_owner_witness:
  "registered_by_name demo_agg \<and>
   iteration_order demo_agg [''B'', ''A'', ''C''] \<and>
   iteration_order demo_agg [''C'', ''B'', ''A''] \<and>
   filter (\<lambda>c. \<not> isl (NodeClient_GetPod demo_net c ''default'' ''web''))
     (snapshot demo_agg [''B'', ''A'', ''C'']) = [NewNodeClient ''A'' ''http://a''] \<and>
   fst (GetPod demo_net demo_agg [''C'', ''B'', ''A''] ''default'' ''web'') =
     Inr (annotate ''A'' pod_web, ''A'') \<and>
   (\<exists>c. clients demo_agg ''A'' = Some c \<and> Name c = ''A'' \<and>
      DeletePod demo_net demo_agg [''B'', ''A'', ''C''] ''default'' ''web'' =
        (NodeClient_DeletePod demo_net c ''default'' ''web'',
         [GetPodCall ''B'' ''default'' ''web'', GetPodCall ''A'' ''default'' ''web'',
          DeletePodCall ''A'' ''default'' ''web'']) \<and>
      GetPodLog demo_net demo_agg [''B'', ''A'', ''C''] ''default'' ''web'' =
        (NodeClient_GetPodLog demo_net c ''default'' ''web'',
         [GetPodCall ''B'' ''default'' ''web'', GetPodCall ''A'' ''default'' ''web'',
          GetPodLogCall ''A'' ''default'' ''web'']))"
proof -
  have r: "registered_by_name demo_agg"
    unfolding demo_agg_def by (rule registered_NewAggregator)
  note inst = DeletePod_GetPodLog_same_owner [OF r demo_order_BAC demo_order_CBA,
      where net = demo_net and ns = "''default''" and name = "''web''"]
  from inst demo_web_one_holder
  have "fst (GetPod demo_net demo_agg [''C'', ''B'', ''A''] ''default'' ''web'') =
        fst (GetPod demo_net demo_agg [''B'', ''A'', ''C''] ''default'' ''web'')"
    by blast
  then have g: "fst (GetPod demo_net demo_agg [''C'', ''B'', ''A''] ''default'' ''web'') =
     Inr (annotate ''A'' pod_web, ''A'')"
    by (simp add: demo_GetPod_web)
  from inst have "\<exists>c. clients demo_agg ''A'' = Some c \<and> Name c = ''A'' \<and>
      DeletePod demo_net demo_agg [''B'', ''A'', ''C''] ''default'' ''web'' =
        (NodeClient_DeletePod demo_net c ''default'' ''web'',
         [GetPodCall ''B'' ''default'' ''web'', GetPodCall ''A'' ''default'' ''web''] @
         [DeletePodCall ''A'' ''default'' ''web'']) \<and>
      GetPodLog demo_net demo_agg [''B'', ''A'', ''C''] ''default'' ''web'' =
        (NodeClient_GetPodLog demo_net c ''default'' ''web'',
         [GetPodCall ''B'' ''default'' ''web'', GetPodCall ''A'' ''default'' ''web''] @
         [GetPodLogCall ''A'' ''default'' ''web''])"
    unfolding demo_GetPod_web prod.case sum.case by blast
  moreover have "filter (\<lambda>c. \<not> isl (NodeClient_GetPod demo_net c ''default'' ''web''))
     (snapshot demo_agg [''B'', ''A'', ''C'']) = [NewNodeClient ''A'' ''http://a'']"
    by (simp add: demo_snapshot_BAC demo_web_holders)
  ultimately show ?thesis
    using r demo_order_BAC demo_order_CBA g by simp
qed

text \<open>
  The pod \<^verbatim>\<open>default/db\<close> is held by node A and by node C. With the same registry and
  the same answers, a \<^verbatim>\<open>GetPod\<close> call that visits B, A, C names A as the owner, while
  \<^verbatim>\<open>DeletePod\<close> and \<^verbatim>\<open>GetPodLog\<close>, visiting C, B, A, resolve C and call C.
\<close>

theorem DeletePod_owner_differs_counterexample:
  "registered_by_name demo_agg \<and>
   iteration_order demo_agg [''B'', ''A'', ''C''] \<and>
   iteration_order demo_agg [''C'', ''B'', ''A''] \<and>
   GetPod demo_net demo_agg [''B'', ''A'', ''C''] ''default'' ''db'' =
     (Inr (annotate ''A'' pod_db, ''A''),
      [GetPodCall ''B'' ''default'' ''db'', GetPodCall ''A'' ''default'' ''db'']) \<and>
   GetPod demo_net demo_agg [''C'', ''B'', ''A''] ''default'' ''db'' =
     (Inr (annotate ''C'' pod_db, ''C''), [GetPodCall ''C'' ''default'' ''db'']) \<and>
   DeletePod demo_net demo_agg [''C'', ''B'', ''A''] ''default'' ''db'' =
     (None, [GetPodCall ''C'' ''default'' ''db'', DeletePodCall ''C'' ''default'' ''db'']) \<and>
   GetPodLog demo_net demo_agg [''C'', ''B'', ''A''] ''default'' ''db'' =
     (Inr ''log line'', [GetPodCall ''C'' ''default'' ''db'', GetPodLogCall ''C'' ''default'' ''db'']) \<and>
   ''A'' \<noteq> ''C''"
proof -
  have r: "registered_by_name demo_agg"
    unfolding demo_agg_def by (rule registered_NewAggregator)
  have g1: "GetPod demo_net demo_agg [''B'', ''A'', ''C''] ''default'' ''db'' =
     (Inr (annotate ''A'' pod_db, ''A''),
      [GetPodCall ''B'' ''default'' ''db'', GetPodCall ''A'' ''default'' ''db''])"
    by (simp add: GetPod_def demo_snapshot_BAC NodeClient_GetPod_def NewNodeClient_def
        demo_net_def node_up_def node_down_def pod_web_def pod_db_def)
  have g2: "GetPod demo_net demo_agg [''C'', ''B'', ''A''] ''default'' ''db'' =
     (Inr (annotate ''C'' pod_db, ''C''), [GetPodCall ''C'' ''default'' ''db''])"
    by (simp add: GetPod_def demo_snapshot_CBA NodeClient_GetPod_def NewNodeClient_def
        demo_net_def node_up_def node_down_def pod_web_def pod_db_def)
  have c: "clients demo_agg ''C'' = Some (NewNodeClient ''C'' ''http://c'')"
    by (simp add: demo_registry)
  have d: "DeletePod demo_net demo_agg [''C'', ''B'', ''A''] ''default'' ''db'' =
     (None, [GetPodCall ''C'' ''default'' ''db'', DeletePodCall ''C'' ''default'' ''db''])"
    by (simp add: DeletePod_def g2 c NodeClient_DeletePod_def NewNodeClient_def
        demo_net_def node_up_def)
  have l: "GetPodLog demo_net demo_agg [''C'', ''B'', ''A''] ''default'' ''db'' =
     (Inr ''log line'', [GetPodCall ''C'' ''default'' ''db'', GetPodLogCall ''C'' ''default'' ''db''])"
    by (simp add: GetPodLog_def g2 c NodeClient_GetPodLog_def NewNodeClient_def
        demo_net_def node_up_def)
  from r demo_order_BAC demo_order_CBA g1 g2 d l show ?thesis by simp
qed

section \<open>Placement on the least loaded node\<close>

lemma least_pods_calls:
  "snd (least_pods net cs m tgt) = map (\<lambda>c. ListPodsCall (Name c)) (filter IsHealthy cs)"
  by (induction cs arbitrary: m tgt)
    (simp_all add: case_prod_beta split: sum.splits)

lemma least_pods_target:
  "((\<forall>c\<in>set (filter (polled net) cs). m \<le> pod_count net c) \<longrightarrow>
      fst (least_pods net cs m tgt) = tgt) \<and>
   (\<not> (\<forall>c\<in>set (filter (polled net) cs). m \<le> pod_count net c) \<longrightarrow>
      (\<exists>pre t post. filter (polled net) cs = pre @ t # post \<and>
           fst (least_pods net cs m tgt) = Some t \<and> pod_count net t < m \<and>
           (\<forall>c\<in>set pre. pod_count net t < pod_count net c) \<and>
           (\<forall>c\<in>set post. pod_count net t \<le> pod_count net c)))"
proof (induction cs arbitrary: m tgt)
  case Nil
  show ?case by simp
next
  case (Cons x xs)
  let ?C = "filter (polled net) xs"
  show ?case
  proof (cases "polled net x")
    case False
    then have "fst (least_pods net (x # xs) m tgt) = fst (least_pods net xs m tgt)"
      by (auto simp: polled_def case_prod_beta split: sum.splits)
    with False Cons.IH [of m tgt] show ?thesis by simp
  next
    case True
    then obtain list where l: "NodeClient_ListPods net x = Inr list" and h: "IsHealthy x"
      by (cases "NodeClient_ListPods net x") (auto simp: polled_def)
    then have n: "pod_count net x = length (Items list)" by (simp add: pod_count_def)
    show ?thesis
    proof (cases "pod_count net x < m")
      case less: True
      with l h n have step: "fst (least_pods net (x # xs) m tgt) =
          fst (least_pods net xs (pod_count net x) (Some x))"
        by (simp add: case_prod_beta)
      show ?thesis
      proof (cases "\<forall>c\<in>set ?C. pod_count net x \<le> pod_count net c")
        case all: True
        from Cons.IH [of "pod_count net x" "Some x"]
        have "fst (least_pods net xs (pod_count net x) (Some x)) = Some x"
          using all by blast
        with step less all True
        have "filter (polled net) (x # xs) = [] @ x # ?C \<and>
           fst (least_pods net (x # xs) m tgt) = Some x \<and> pod_count net x < m \<and>
           (\<forall>c\<in>set []. pod_count net x < pod_count net c) \<and>
           (\<forall>c\<in>set ?C. pod_count net x \<le> pod_count net c)"
          by simp
        moreover from less True have "\<not> (\<forall>c\<in>set (filter (polled net) (x # xs)). m \<le> pod_count net c)"
          by auto
        ultimately show ?thesis by blast
      next
        case some: False
        from Cons.IH [of "pod_count net x" "Some x"]
        have "\<exists>pre t post. ?C = pre @ t # post \<and>
          fst (least_pods net xs (pod_count net x) (Some x)) = Some t \<and>
          pod_count net t < pod_count net x \<and>
          (\<forall>c\<in>set pre. pod_count net t < pod_count net c) \<and>
          (\<forall>c\<in>set post. pod_count net t \<le> pod_count net c)"
          using some by blast
        then obtain pre t post where p: "?C = pre @ t # post"
          "fst (least_pods net xs (pod_count net x) (Some x)) = Some t"
          "pod_count net t < pod_count net x"
          "\<forall>c\<in>set pre. pod_count net t < pod_count net c"
          "\<forall>c\<in>set post. pod_count net t \<le> pod_count net c"
          by blast
        with step less True
        have "filter (polled net) (x # xs) = (x # pre) @ t # post \<and>
           fst (least_pods net (x # xs) m tgt) = Some t \<and> pod_count net t < m \<and>
           (\<forall>c\<in>set (x # pre). pod_count net t < pod_count net c) \<and>
           (\<forall>c\<in>set post. pod_count net t \<le> pod_count net c)"
          by simp
        moreover from less True have "\<not> (\<forall>c\<in>set (filter (polled net) (x # xs)). m \<le> pod_count net c)"
          by auto
        ultimately show ?thesis by blast
      qed
    next
      case geq: False
      with l h n have step: "fst (least_pods net (x # xs) m tgt) =
          fst (least_pods net xs m tgt)"
        by (simp add: case_prod_beta)
      show ?thesis
      proof (cases "\<forall>c\<in>set ?C. m \<le> pod_count net c")
        case all: True
        from Cons.IH [of m tgt] have "fst (least_pods net xs m tgt) = tgt"
          using all by blast
        with all step geq True show ?thesis by simp
      next
        case some: False
        from Cons.IH [of m tgt]
        have "\<exists>pre t post. ?C = pre @ t # post \<and>
          fst (least_pods net xs m tgt) = Some t \<and>
          pod_count net t < m \<and>
          (\<forall>c\<in>set pre. pod_count net t < pod_count net c) \<and>
          (\<forall>c\<in>set post. pod_count net t \<le> pod_count net c)"
          using some by blast
        then obtain pre t post where p: "?C = pre @ t # post"
          "fst (least_pods net xs m tgt) = Some t"
          "pod_count net t < m"
          "\<forall>c\<in>set pre. pod_count net t < pod_count net c"
          "\<forall>c\<in>set post. pod_count net t \<le> pod_count net c"
          by blast
        with step geq True
        have "filter (polled net) (x # xs) = (x # pre) @ t # post \<and>
           fst (least_pods net (x # xs) m tgt) = Some t \<and> pod_count net t < m \<and>
           (\<forall>c\<in>set (x # pre). pod_count net t < pod_count net c) \<and>
           (\<forall>c\<in>set post. pod_count net t \<le> pod_count net c)"
          by simp
        moreover from some True have "\<not> (\<forall>c\<in>set (filter (polled net) (x # xs)). m \<le> pod_count net c)"
          by auto
        ultimately show ?thesis by blast
      qed
    qed
  qed
qed

lemma CreatePod_unnamed:
  "NodeName pod = [] \<Longrightarrow>
   CreatePod net a ord pod =
     (case fst (least_pods net (snapshot a ord) max_int None) of
        None \<Rightarrow> (Inl NoHealthyNodes, map (\<lambda>c. ListPodsCall (Name c)) (filter IsHealthy (snapshot a ord)))
      | Some target \<Rightarrow>
          (NodeClient_CreatePod net target pod,
           map (\<lambda>c. ListPodsCall (Name c)) (filter IsHealthy (snapshot a ord)) @ [CreatePodCall (Name target) pod]))"
  using least_pods_calls [of net "snapshot a ord" max_int None]
  by (cases "least_pods net (snapshot a ord) max_int None")
    (simp add: CreatePod_def split: option.split)

text \<open>
  C2. When the pod names no node, \<^verbatim>\<open>CreatePod\<close> calls \<^verbatim>\<open>ListPods\<close> once on every
  client whose field \<open>healthy\<close> is true, in iteration order, and on no other. The
  candidates are the registered clients with \<open>healthy\<close> true whose \<^verbatim>\<open>ListPods\<close> call
  answered. The
  create goes to the candidate with the smallest pod count, the first such in iteration
  order (every candidate before it has strictly more pods, every one after it at least as
  many), and its result is returned as it is. With no candidate, in particular when the
  field \<open>healthy\<close> of every registered client is false, the call fails with the
  no-healthy-nodes error; in that particular case no remote call is made.
\<close>

theorem CreatePod_least_pods:
  assumes "NodeName pod = []" and "iteration_order a ord"
    and "\<forall>c\<in>ran (clients a). pod_count net c < max_int"
  shows "set (filter (reporting net) (snapshot a ord)) =
           {c \<in> ran (clients a). healthy c \<and> \<not> isl (NodeClient_ListPods net c)} \<and>
         (filter (reporting net) (snapshot a ord) = [] \<longrightarrow>
            CreatePod net a ord pod = (Inl NoHealthyNodes, ListPodsCalls (snapshot a ord))) \<and>
         (filter (reporting net) (snapshot a ord) \<noteq> [] \<longrightarrow>
            (\<exists>pre t post. filter (reporting net) (snapshot a ord) = pre @ t # post \<and>
               (\<forall>c\<in>set pre. pod_count net t < pod_count net c) \<and>
               (\<forall>c\<in>set post. pod_count net t \<le> pod_count net c) \<and>
               CreatePod net a ord pod =
                 (NodeClient_CreatePod net t pod,
                  ListPodsCalls (snapshot a ord) @ [CreatePodCall (Name t) pod]))) \<and>
         ((\<forall>c\<in>ran (clients a). \<not> healthy c) \<longrightarrow>
            CreatePod net a ord pod = (Inl NoHealthyNodes, []))"
proof (intro conjI impI)
  let ?C = "filter (reporting net) (snapshot a ord)"
  note ran = set_snapshot_ran [OF assms(2)]
  have flag: "IsHealthy = healthy"
    by (simp add: fun_eq_iff IsHealthy_def)
  have "polled net = reporting net"
    by (simp add: fun_eq_iff polled_def reporting_def flag)
  with least_pods_target [of net "snapshot a ord" max_int None]
  have target:
    "((\<forall>c\<in>set ?C. max_int \<le> pod_count net c) \<longrightarrow>
        fst (least_pods net (snapshot a ord) max_int None) = None) \<and>
     (\<not> (\<forall>c\<in>set ?C. max_int \<le> pod_count net c) \<longrightarrow>
        (\<exists>pre t post. ?C = pre @ t # post \<and>
           fst (least_pods net (snapshot a ord) max_int None) = Some t \<and>
           pod_count net t < max_int \<and>
           (\<forall>c\<in>set pre. pod_count net t < pod_count net c) \<and>
           (\<forall>c\<in>set post. pod_count net t \<le> pod_count net c)))"
    by simp
  from CreatePod_unnamed [OF assms(1), of net a ord]
  have unnamed: "CreatePod net a ord pod =
     (case fst (least_pods net (snapshot a ord) max_int None) of
        None \<Rightarrow> (Inl NoHealthyNodes, ListPodsCalls (snapshot a ord))
      | Some target \<Rightarrow>
          (NodeClient_CreatePod net target pod,
           ListPodsCalls (snapshot a ord) @ [CreatePodCall (Name target) pod]))"
    by (simp add: ListPodsCalls_def flag split: option.split)
  show "set ?C = {c \<in> ran (clients a). healthy c \<and> \<not> isl (NodeClient_ListPods net c)}"
    using ran by (auto simp: reporting_def)
  {
    assume "?C = []"
    with target have "fst (least_pods net (snapshot a ord) max_int None) = None"
      by simp
    then show "CreatePod net a ord pod = (Inl NoHealthyNodes, ListPodsCalls (snapshot a ord))"
      by (simp add: unnamed)
  }
  {
    assume "?C \<noteq> []"
    then obtain c where "c \<in> set ?C" by (cases ?C) auto
    with assms(3) ran have "\<not> (\<forall>c\<in>set ?C. max_int \<le> pod_count net c)"
      by (auto simp: not_le)
    with target obtain pre t post where "?C = pre @ t # post"
      "fst (least_pods net (snapshot a ord) max_int None) = Some t"
      "\<forall>c\<in>set pre. pod_count net t < pod_count net c"
      "\<forall>c\<in>set post. pod_count net t \<le> pod_count net c"
      by blast
    then show "\<exists>pre t post. ?C = pre @ t # post \<and>
               (\<forall>c\<in>set pre. pod_count net t < pod_count net c) \<and>
               (\<forall>c\<in>set post. pod_count net t \<le> pod_count net c) \<and>
               CreatePod net a ord pod =
                 (NodeClient_CreatePod net t pod,
                  ListPodsCalls (snapshot a ord) @ [CreatePodCall (Name t) pod])"
      by (simp add: unnamed) blast
  }
  {
    assume none: "\<forall>c\<in>ran (clients a). \<not> healthy c"
    with ran have f: "filter healthy (snapshot a ord) = []" and "?C = []"
      by (auto simp: filter_empty_conv reporting_def)
    with target have "fst (least_pods net (snapshot a ord) max_int None) = None"
      by simp
    with f show "CreatePod net a ord pod = (Inl NoHealthyNodes, [])"
      by (simp add: unnamed ListPodsCalls_def)
  }
qed

lemma demo_counts:
  "pod_count demo_net (NewNodeClient ''A'' ''http://a'') = 2"
  "pod_count demo_net (NewNodeClient ''B'' ''http://b'') = 0"
  "pod_count demo_net (NewNodeClient ''C'' ''http://c'') = 5"
  by (simp_all add: pod_count_def NodeClient_ListPods_def NewNodeClient_def demo_net_def
      node_up_def node_down_def)

lemma demo_reporting:
  "reporting demo_net (NewNodeClient ''A'' ''http://a'')"
  "\<not> reporting demo_net (NewNodeClient ''B'' ''http://b'')"
  "reporting demo_net (NewNodeClient ''C'' ''http://c'')"
  by (simp_all add: reporting_def IsHealthy_def NodeClient_ListPods_def NewNodeClient_def
      demo_net_def node_up_def node_down_def)

lemma demo_candidates:
  "filter (reporting demo_net) (snapshot demo_agg [''B'', ''A'', ''C'']) =
     [NewNodeClient ''A'' ''http://a'', NewNodeClient ''C'' ''http://c'']"
  by (simp add: demo_snapshot_BAC demo_reporting)

lemma demo_ListPodsCalls:
  "ListPodsCalls (snapshot demo_agg [''B'', ''A'', ''C'']) =
     [ListPodsCall ''B'', ListPodsCall ''A'', ListPodsCall ''C'']"
  by (simp add: demo_snapshot_BAC ListPodsCalls_def IsHealthy_def NewNodeClient_def)

lemma demo_override_registry:
  "clients (override_health h demo_agg) =
     [''A'' \<mapsto> \<lparr>Name = ''A'', Address = ''http://a'', healthy = h ''A'', lastPing = 0\<rparr>,
      ''B'' \<mapsto> \<lparr>Name = ''B'', Address = ''http://b'', healthy = h ''B'', lastPing = 0\<rparr>,
      ''C'' \<mapsto> \<lparr>Name = ''C'', Address = ''http://c'', healthy = h ''C'', lastPing = 0\<rparr>]"
  by (rule ext)
    (simp add: clients_override_health demo_registry NewNodeClient_def zero_time_def)

lemma demo_override_order: "iteration_order (override_health h demo_agg) [''B'', ''A'', ''C'']"
  by (auto simp: iteration_order_def demo_override_registry)

lemma demo_override_snapshot:
  "snapshot (override_health h demo_agg) [''B'', ''A'', ''C''] =
     [\<lparr>Name = ''B'', Address = ''http://b'', healthy = h ''B'', lastPing = 0\<rparr>,
      \<lparr>Name = ''A'', Address = ''http://a'', healthy = h ''A'', lastPing = 0\<rparr>,
      \<lparr>Name = ''C'', Address = ''http://c'', healthy = h ''C'', lastPing = 0\<rparr>]"
  by (simp add: snapshot_def demo_override_registry)

lemma demo_override_counts:
  "pod_count demo_net \<lparr>Name = ''A'', Address = ''http://a'', healthy = x, lastPing = 0\<rparr> = 2"
  "pod_count demo_net \<lparr>Name = ''B'', Address = ''http://b'', healthy = x, lastPing = 0\<rparr> = 0"
  "pod_count demo_net \<lparr>Name = ''C'', Address = ''http://c'', healthy = x, lastPing = 0\<rparr> = 5"
  by (simp_all add: pod_count_def NodeClient_ListPods_def demo_net_def node_up_def node_down_def)

lemma demo_override_bound:
  "\<forall>c\<in>ran (clients (override_health h demo_agg)). pod_count demo_net c < max_int"
  by (simp add: demo_override_registry ran_ABC demo_override_counts max_int_def)

theorem CreatePod_least_pods_witness:
  "NodeName (pod_for []) = [] \<and>
   iteration_order demo_agg [''B'', ''A'', ''C''] \<and>
   map (pod_count demo_net) (snapshot demo_agg [''B'', ''A'', ''C'']) = [0, 2, 5] \<and>
   filter (reporting demo_net) (snapshot demo_agg [''B'', ''A'', ''C'']) =
     [NewNodeClient ''A'' ''http://a'', NewNodeClient ''C'' ''http://c''] \<and>
   CreatePod demo_net demo_agg [''B'', ''A'', ''C''] (pod_for []) =
     (Inr (pod_for []),
      [ListPodsCall ''B'', ListPodsCall ''A'', ListPodsCall ''C'',
       CreatePodCall ''A'' (pod_for [])]) \<and>
   iteration_order demo_drained [''B'', ''A'', ''C''] \<and>
   map healthy (snapshot demo_drained [''B'', ''A'', ''C'']) = [True, False, True] \<and>
   map (pod_count demo_net) (snapshot demo_drained [''B'', ''A'', ''C'']) = [0, 2, 5] \<and>
   CreatePod demo_net demo_drained [''B'', ''A'', ''C''] (pod_for []) =
     (Inr (pod_for []),
      [ListPodsCall ''B'', ListPodsCall ''C'', CreatePodCall ''C'' (pod_for [])]) \<and>
   iteration_order demo_all_unhealthy [''B'', ''A'', ''C''] \<and>
   map healthy (snapshot demo_all_unhealthy [''B'', ''A'', ''C'']) = [False, False, False] \<and>
   CreatePod demo_net demo_all_unhealthy [''B'', ''A'', ''C''] (pod_for []) =
     (Inl NoHealthyNodes, [])"
proof -
  let ?A = "NewNodeClient ''A'' ''http://a''" and ?C = "NewNodeClient ''C'' ''http://c''"
  let ?ord = "[''B'', ''A'', ''C'']"
  have n: "NodeName (pod_for []) = []" by (simp add: pod_for_def)
  have b: "\<forall>c\<in>ran (clients demo_agg). pod_count demo_net c < max_int"
    by (simp add: demo_ran demo_counts max_int_def)
  have m: "map (pod_count demo_net) (snapshot demo_agg ?ord) = [0, 2, 5]"
    by (simp add: demo_snapshot_BAC demo_counts)
  from CreatePod_least_pods [OF n demo_order_BAC b]
  obtain pre t post where split: "[?A, ?C] = pre @ t # post"
    and before: "\<forall>c\<in>set pre. pod_count demo_net t < pod_count demo_net c"
    and create: "CreatePod demo_net demo_agg ?ord (pod_for []) =
       (NodeClient_CreatePod demo_net t (pod_for []),
        ListPodsCalls (snapshot demo_agg ?ord) @ [CreatePodCall (Name t) (pod_for [])])"
    unfolding demo_candidates by blast
  from split have "(pre = [] \<and> t = ?A) \<or> (pre = [?A] \<and> t = ?C)"
    by (cases pre) (auto simp: Cons_eq_append_conv)
  with before have "t = ?A"
    by (auto simp: demo_counts)
  with create have all_up: "CreatePod demo_net demo_agg ?ord (pod_for []) =
     (Inr (pod_for []),
      [ListPodsCall ''B'', ListPodsCall ''A'', ListPodsCall ''C'',
       CreatePodCall ''A'' (pod_for [])])"
    by (simp add: demo_ListPodsCalls demo_create_on_A) (simp add: NewNodeClient_def)

  let ?C' = "\<lparr>Name = ''C'', Address = ''http://c'', healthy = True, lastPing = 0\<rparr>"
  have od: "iteration_order demo_drained ?ord"
    unfolding demo_drained_def by (rule demo_override_order)
  have bd: "\<forall>c\<in>ran (clients demo_drained). pod_count demo_net c < max_int"
    unfolding demo_drained_def by (rule demo_override_bound)
  have sd: "snapshot demo_drained ?ord =
     [\<lparr>Name = ''B'', Address = ''http://b'', healthy = True, lastPing = 0\<rparr>,
      \<lparr>Name = ''A'', Address = ''http://a'', healthy = False, lastPing = 0\<rparr>, ?C']"
    by (simp add: demo_drained_def demo_override_snapshot)
  have cd: "filter (reporting demo_net) (snapshot demo_drained ?ord) = [?C']"
    by (simp add: sd reporting_def NodeClient_ListPods_def demo_net_def node_up_def node_down_def)
  have ld: "ListPodsCalls (snapshot demo_drained ?ord) = [ListPodsCall ''B'', ListPodsCall ''C'']"
    by (simp add: sd ListPodsCalls_def)
  from CreatePod_least_pods [OF n od bd]
  obtain pre' t' post' where split': "[?C'] = pre' @ t' # post'"
    and create': "CreatePod demo_net demo_drained ?ord (pod_for []) =
       (NodeClient_CreatePod demo_net t' (pod_for []),
        ListPodsCalls (snapshot demo_drained ?ord) @ [CreatePodCall (Name t') (pod_for [])])"
    unfolding cd by blast
  from split' have "t' = ?C'"
    by (cases pre') (auto simp: Cons_eq_append_conv)
  with create' have drained: "CreatePod demo_net demo_drained ?ord (pod_for []) =
     (Inr (pod_for []),
      [ListPodsCall ''B'', ListPodsCall ''C'', CreatePodCall ''C'' (pod_for [])])"
    by (simp add: ld NodeClient_CreatePod_def demo_net_def node_up_def)
  have "CreatePod demo_net demo_drained ?ord (pod_for []) =
     (Inr (pod_for []),
      [ListPodsCall ''B'', ListPodsCall ''C'', CreatePodCall ''C'' (pod_for [])])"
    by (simp add: CreatePod_def sd pod_for_def IsHealthy_def NodeClient_ListPods_def
        NodeClient_CreatePod_def demo_net_def node_up_def node_down_def max_int_def)
  have hd: "map healthy (snapshot demo_drained ?ord) = [True, False, True]"
    and md: "map (pod_count demo_net) (snapshot demo_drained ?ord) = [0, 2, 5]"
    by (simp_all add: sd demo_override_counts)

  have ou: "iteration_order demo_all_unhealthy ?ord"
    unfolding demo_all_unhealthy_def by (rule demo_override_order)
  have bu: "\<forall>c\<in>ran (clients demo_all_unhealthy). pod_count demo_net c < max_int"
    unfolding demo_all_unhealthy_def by (rule demo_override_bound)
  have nu: "\<forall>c\<in>ran (clients demo_all_unhealthy). \<not> healthy c"
    by (simp add: demo_all_unhealthy_def demo_override_registry ran_ABC)
  from CreatePod_least_pods [OF n ou bu] nu
  have none: "CreatePod demo_net demo_all_unhealthy ?ord (pod_for []) = (Inl NoHealthyNodes, [])"
    by blast
  have hu: "map healthy (snapshot demo_all_unhealthy ?ord) = [False, False, False]"
    by (simp add: demo_all_unhealthy_def demo_override_snapshot)
  from n demo_order_BAC m demo_candidates all_up od hd md drained ou hu none
  show ?thesis by simp
qed

section \<open>Fan-out reads\<close>

lemma mset_concat_snapshot:
  assumes "iteration_order a ord"
  shows "mset (concat (map f (snapshot a ord))) =
         (\<Sum>k\<in>dom (clients a). case clients a k of None \<Rightarrow> {#} | Some c \<Rightarrow> mset (f c))"
proof -
  from assms have d: "distinct ord" and s: "set ord = dom (clients a)"
    by (simp_all add: iteration_order_def)
  from s have "snapshot a ord = map (\<lambda>k. the (clients a k)) ord"
    by (simp add: snapshot_map_the)
  then have "mset (concat (map f (snapshot a ord))) =
        (\<Sum>k\<leftarrow>ord. mset (f (the (clients a k))))"
    by (simp add: mset_concat comp_def)
  also have "\<dots> = (\<Sum>k\<in>set ord. mset (f (the (clients a k))))"
    using d by (simp add: sum.distinct_set_conv_list)
  also have "\<dots> = (\<Sum>k\<in>dom (clients a). case clients a k of None \<Rightarrow> {#} | Some c \<Rightarrow> mset (f c))"
    unfolding s by (rule sum.cong) auto
  finally show ?thesis .
qed

lemma length_snapshot:
  "iteration_order a ord \<Longrightarrow> length (snapshot a ord) = card (dom (clients a))"
  using distinct_card [of ord] snapshot_map_the [of ord a]
  by (simp add: iteration_order_def)

text \<open>
  C1. \<^verbatim>\<open>ListAllPods\<close> and \<^verbatim>\<open>ListAllNodes\<close> always return a nil error. The pods returned
  are, as a multiset, the sum over the registered clients whose \<^verbatim>\<open>ListPods\<close> call
  succeeded of that client's items, each annotated with the client's name; a client whose
  call failed contributes nothing. Every returned pod is an item of a client that
  answered and carries that client's name under \<^verbatim>\<open>mkube.io/node\<close>. The nodes returned
  are the node objects of the clients whose \<^verbatim>\<open>GetNode\<close> call succeeded, one each, so
  their number is the number of clients that answered.
\<close>

theorem fan_out_union:
  assumes "iteration_order a ord"
  shows "snd (ListAllPods net a ord) = None \<and>
         mset (fst (ListAllPods net a ord)) =
           (\<Sum>k\<in>dom (clients a).
              case clients a k of
                None \<Rightarrow> {#}
              | Some c \<Rightarrow>
                  (case NodeClient_ListPods net c of
                     Inl err \<Rightarrow> {#}
                   | Inr list \<Rightarrow> mset (map (annotate (Name c)) (Items list)))) \<and>
         (\<forall>pod\<in>set (fst (ListAllPods net a ord)).
            \<exists>c\<in>ran (clients a). \<exists>list. NodeClient_ListPods net c = Inr list \<and>
              (\<exists>item\<in>set (Items list). pod = annotate (Name c) item) \<and>
              (\<exists>m. Annotations pod = Some m \<and> m ''mkube.io/node'' = Some (Name c))) \<and>
         snd (ListAllNodes net a ord) = None \<and>
         mset (fst (ListAllNodes net a ord)) =
           (\<Sum>k\<in>dom (clients a).
              case clients a k of
                None \<Rightarrow> {#}
              | Some c \<Rightarrow>
                  (case NodeClient_GetNode net c of
                     Inl err \<Rightarrow> {#}
                   | Inr node \<Rightarrow> {#node#})) \<and>
         length (fst (ListAllNodes net a ord)) =
           card {k \<in> dom (clients a). \<exists>c. clients a k = Some c \<and> \<not> isl (NodeClient_GetNode net c)}"
proof (intro conjI ballI)
  show "snd (ListAllPods net a ord) = None" by (simp add: ListAllPods_def)
  show "snd (ListAllNodes net a ord) = None" by (simp add: ListAllNodes_def)
  have "mset (fst (ListAllPods net a ord)) =
      (\<Sum>k\<in>dom (clients a). case clients a k of None \<Rightarrow> {#} | Some c \<Rightarrow> mset (listed_pods net c))"
    by (simp add: ListAllPods_def mset_concat_snapshot [OF assms])
  also have "\<dots> = (\<Sum>k\<in>dom (clients a).
              case clients a k of
                None \<Rightarrow> {#}
              | Some c \<Rightarrow>
                  (case NodeClient_ListPods net c of
                     Inl err \<Rightarrow> {#}
                   | Inr list \<Rightarrow> mset (map (annotate (Name c)) (Items list))))"
    by (rule sum.cong) (auto simp: listed_pods_def split: option.splits sum.splits)
  finally show "mset (fst (ListAllPods net a ord)) = \<dots>" .
  have nodes: "mset (fst (ListAllNodes net a ord)) =
      (\<Sum>k\<in>dom (clients a). case clients a k of None \<Rightarrow> {#} | Some c \<Rightarrow> mset (listed_node net c))"
    by (simp add: ListAllNodes_def mset_concat_snapshot [OF assms])
  also have "\<dots> = (\<Sum>k\<in>dom (clients a).
              case clients a k of
                None \<Rightarrow> {#}
              | Some c \<Rightarrow>
                  (case NodeClient_GetNode net c of
                     Inl err \<Rightarrow> {#}
                   | Inr node \<Rightarrow> {#node#}))"
    by (rule sum.cong) (auto simp: listed_node_def split: option.splits sum.splits)
  finally show "mset (fst (ListAllNodes net a ord)) = \<dots>" .
next
  fix pod assume "pod \<in> set (fst (ListAllPods net a ord))"
  then obtain c where c: "c \<in> set (snapshot a ord)" "pod \<in> set (listed_pods net c)"
    by (auto simp: ListAllPods_def)
  from c(2) have "\<exists>list item. NodeClient_ListPods net c = Inr list \<and>
      item \<in> set (Items list) \<and> pod = annotate (Name c) item"
    by (cases "NodeClient_ListPods net c") (auto simp: listed_pods_def)
  then obtain list item where "NodeClient_ListPods net c = Inr list"
    "item \<in> set (Items list)" "pod = annotate (Name c) item"
    by blast
  moreover from this have "\<exists>m. Annotations pod = Some m \<and> m ''mkube.io/node'' = Some (Name c)"
    by (simp add: annotate_def)
  ultimately show "\<exists>c\<in>ran (clients a). \<exists>list. NodeClient_ListPods net c = Inr list \<and>
              (\<exists>item\<in>set (Items list). pod = annotate (Name c) item) \<and>
              (\<exists>m. Annotations pod = Some m \<and> m ''mkube.io/node'' = Some (Name c))"
    using snapshot_in_ran [OF c(1)] by blast
next
  from assms have d: "distinct ord" and s: "set ord = dom (clients a)"
    by (simp_all add: iteration_order_def)
  let ?ok = "\<lambda>k. \<exists>c. clients a k = Some c \<and> \<not> isl (NodeClient_GetNode net c)"
  have "length (concat (map (listed_node net) (map (\<lambda>k. the (clients a k)) ks))) =
        length (filter ?ok ks)" if "set ks \<subseteq> dom (clients a)" for ks
    using that by (induction ks) (auto simp: listed_node_def split: sum.splits)
  with s have "length (fst (ListAllNodes net a ord)) = length (filter ?ok ord)"
    by (simp add: ListAllNodes_def snapshot_map_the)
  also have "\<dots> = card {k \<in> dom (clients a). ?ok k}"
    using d s by (simp add: distinct_length_filter Int_def conj_commute)
  finally show "length (fst (ListAllNodes net a ord)) =
           card {k \<in> dom (clients a). \<exists>c. clients a k = Some c \<and> \<not> isl (NodeClient_GetNode net c)}" .
qed

lemma demo_listed_pods:
  "listed_pods demo_net (NewNodeClient ''A'' ''http://a'') =
     [annotate ''A'' pod_web, annotate ''A'' pod_db]"
  "listed_pods demo_net (NewNodeClient ''B'' ''http://b'') = []"
  "listed_pods demo_net (NewNodeClient ''C'' ''http://c'') =
     [annotate ''C'' pod_db, annotate ''C'' pod_db, annotate ''C'' pod_db,
      annotate ''C'' pod_db, annotate ''C'' pod_db]"
  by (simp_all add: listed_pods_def NodeClient_ListPods_def NewNodeClient_def demo_net_def
      node_up_def node_down_def)

lemma demo_listed_node:
  "listed_node demo_net (NewNodeClient ''A'' ''http://a'') = [\<lparr>NodeObjName = ''A''\<rparr>]"
  "listed_node demo_net (NewNodeClient ''B'' ''http://b'') = []"
  "listed_node demo_net (NewNodeClient ''C'' ''http://c'') = [\<lparr>NodeObjName = ''C''\<rparr>]"
  by (simp_all add: listed_node_def NodeClient_GetNode_def NewNodeClient_def demo_net_def
      node_up_def node_down_def)

theorem fan_out_union_witness:
  "iteration_order demo_agg [''C'', ''B'', ''A''] \<and>
   ListAllPods demo_net demo_agg [''C'', ''B'', ''A''] =
     ([annotate ''C'' pod_db, annotate ''C'' pod_db, annotate ''C'' pod_db,
       annotate ''C'' pod_db, annotate ''C'' pod_db,
       annotate ''A'' pod_web, annotate ''A'' pod_db], None) \<and>
   ListAllNodes demo_net demo_agg [''C'', ''B'', ''A''] =
     ([\<lparr>NodeObjName = ''C''\<rparr>, \<lparr>NodeObjName = ''A''\<rparr>], None) \<and>
   card {k \<in> dom (clients demo_agg).
     \<exists>c. clients demo_agg k = Some c \<and> \<not> isl (NodeClient_GetNode demo_net c)} = 2"
proof -
  note inst = fan_out_union [OF demo_order_CBA, where net = demo_net]
  have p: "fst (ListAllPods demo_net demo_agg [''C'', ''B'', ''A'']) =
     [annotate ''C'' pod_db, annotate ''C'' pod_db, annotate ''C'' pod_db,
       annotate ''C'' pod_db, annotate ''C'' pod_db,
       annotate ''A'' pod_web, annotate ''A'' pod_db]"
    by (simp add: ListAllPods_def demo_snapshot_CBA demo_listed_pods)
  have n: "fst (ListAllNodes demo_net demo_agg [''C'', ''B'', ''A'']) =
     [\<lparr>NodeObjName = ''C''\<rparr>, \<lparr>NodeObjName = ''A''\<rparr>]"
    by (simp add: ListAllNodes_def demo_snapshot_CBA demo_listed_node)
  from inst have "snd (ListAllPods demo_net demo_agg [''C'', ''B'', ''A'']) = None"
    and "snd (ListAllNodes demo_net demo_agg [''C'', ''B'', ''A'']) = None"
    and "length (fst (ListAllNodes demo_net demo_agg [''C'', ''B'', ''A''])) =
      card {k \<in> dom (clients demo_agg).
        \<exists>c. clients demo_agg k = Some c \<and> \<not> isl (NodeClient_GetNode demo_net c)}"
    by blast+
  with p n demo_order_CBA show ?thesis
    by (simp add: prod_eq_iff)
qed

section \<open>The cluster summary\<close>

lemma count_running_filter:
  "count_running pods n = n + length (filter (\<lambda>pod. Phase pod = PodRunning) pods)"
  unfolding count_running_def by (induction pods arbitrary: n) simp_all

lemma summary_step_fields:
  "NodeCount (summary_step net c s) = NodeCount s"
  "HealthyNodes (summary_step net c s) = HealthyNodes s + (if IsHealthy c then 1 else 0)"
  "PodCount (summary_step net c s) = PodCount s + pod_count net c"
  "RunningPods (summary_step net c s) = RunningPods s + running_count net c"
  "Nodes (summary_step net c s) = Nodes s @ [node_summary net c]"
  by (simp_all add: summary_step_def Let_def pod_count_def running_count_def node_summary_def
      count_running_filter IsHealthy_def LastPing_def split: sum.split)

lemma summary_fold_fields:
  "NodeCount (fold (summary_step net) cs s) = NodeCount s"
  "HealthyNodes (fold (summary_step net) cs s) = HealthyNodes s + length (filter IsHealthy cs)"
  "PodCount (fold (summary_step net) cs s) = PodCount s + sum_list (map (pod_count net) cs)"
  "RunningPods (fold (summary_step net) cs s) = RunningPods s + sum_list (map (running_count net) cs)"
  "Nodes (fold (summary_step net) cs s) = Nodes s @ map (node_summary net) cs"
  by (induction cs arbitrary: s) (simp_all add: summary_step_fields)

lemma sum_list_snapshot:
  fixes g :: "NodeClient \<Rightarrow> nat"
  assumes "iteration_order a ord"
  shows "sum_list (map g (snapshot a ord)) =
         (\<Sum>k\<in>dom (clients a). case clients a k of None \<Rightarrow> 0 | Some c \<Rightarrow> g c)"
proof -
  from assms have d: "distinct ord" and s: "set ord = dom (clients a)"
    by (simp_all add: iteration_order_def)
  from s have "sum_list (map g (snapshot a ord)) = (\<Sum>k\<leftarrow>ord. g (the (clients a k)))"
    by (simp add: snapshot_map_the comp_def)
  also have "\<dots> = (\<Sum>k\<in>set ord. g (the (clients a k)))"
    using d by (simp add: sum.distinct_set_conv_list)
  also have "\<dots> = (\<Sum>k\<in>dom (clients a). case clients a k of None \<Rightarrow> 0 | Some c \<Rightarrow> g c)"
    unfolding s by (rule sum.cong) auto
  finally show ?thesis .
qed

lemma healthy_snapshot:
  assumes "iteration_order a ord"
  shows "length (filter IsHealthy (snapshot a ord)) =
         card {k \<in> dom (clients a). \<exists>c. clients a k = Some c \<and> IsHealthy c}"
proof -
  from assms have d: "distinct ord" and s: "set ord = dom (clients a)"
    by (simp_all add: iteration_order_def)
  let ?ok = "\<lambda>k. \<exists>c. clients a k = Some c \<and> IsHealthy c"
  have "length (filter IsHealthy (map (\<lambda>k. the (clients a k)) ks)) = length (filter ?ok ks)"
    if "set ks \<subseteq> dom (clients a)" for ks
    using that by (induction ks) auto
  with s have "length (filter IsHealthy (snapshot a ord)) = length (filter ?ok ord)"
    by (simp add: snapshot_map_the)
  also have "\<dots> = card {k \<in> dom (clients a). ?ok k}"
    using d s by (simp add: distinct_length_filter Int_def conj_commute)
  finally show ?thesis .
qed

text \<open>
  C6. \<^verbatim>\<open>GetClusterSummary\<close> is computed from the registry and from one \<^verbatim>\<open>ListPods\<close>
  call per client of the snapshot, with nothing kept between calls. \<open>NodeCount\<close> is the
  number of registered clients, \<open>HealthyNodes\<close> the number whose cached flag is true,
  \<open>PodCount\<close> and \<open>RunningPods\<close> the sums over the registered clients of the pods and of
  the running pods in the client's answer, a client whose call fails counting zero in
  both; the per-node list has one entry per client, in iteration order, with the
  client's name, cached flag and last ping, and its pod count, zero when the call fails.
\<close>

theorem GetClusterSummary_counts:
  assumes "iteration_order a ord"
  shows "NodeCount (GetClusterSummary net a ord) = card (dom (clients a)) \<and>
         HealthyNodes (GetClusterSummary net a ord) =
           card {k \<in> dom (clients a). \<exists>c. clients a k = Some c \<and> IsHealthy c} \<and>
         PodCount (GetClusterSummary net a ord) =
           (\<Sum>k\<in>dom (clients a). case clients a k of None \<Rightarrow> 0 | Some c \<Rightarrow> pod_count net c) \<and>
         RunningPods (GetClusterSummary net a ord) =
           (\<Sum>k\<in>dom (clients a). case clients a k of None \<Rightarrow> 0 | Some c \<Rightarrow> running_count net c) \<and>
         Nodes (GetClusterSummary net a ord) = map (node_summary net) (snapshot a ord) \<and>
         (\<forall>c. isl (NodeClient_ListPods net c) \<longrightarrow>
            pod_count net c = 0 \<and> running_count net c = 0 \<and>
            ns_PodCount (node_summary net c) = 0)"
proof (intro conjI allI impI)
  show "NodeCount (GetClusterSummary net a ord) = card (dom (clients a))"
    by (simp add: GetClusterSummary_def summary_fold_fields length_snapshot [OF assms])
  show "HealthyNodes (GetClusterSummary net a ord) =
           card {k \<in> dom (clients a). \<exists>c. clients a k = Some c \<and> IsHealthy c}"
    by (simp add: GetClusterSummary_def summary_fold_fields healthy_snapshot [OF assms])
  show "PodCount (GetClusterSummary net a ord) =
           (\<Sum>k\<in>dom (clients a). case clients a k of None \<Rightarrow> 0 | Some c \<Rightarrow> pod_count net c)"
    by (simp add: GetClusterSummary_def summary_fold_fields sum_list_snapshot [OF assms])
  show "RunningPods (GetClusterSummary net a ord) =
           (\<Sum>k\<in>dom (clients a). case clients a k of None \<Rightarrow> 0 | Some c \<Rightarrow> running_count net c)"
    by (simp add: GetClusterSummary_def summary_fold_fields sum_list_snapshot [OF assms])
  show "Nodes (GetClusterSummary net a ord) = map (node_summary net) (snapshot a ord)"
    by (simp add: GetClusterSummary_def summary_fold_fields)
next
  fix c assume "isl (NodeClient_ListPods net c)"
  then show "pod_count net c = 0" "running_count net c = 0"
    "ns_PodCount (node_summary net c) = 0"
    by (cases "NodeClient_ListPods net c";
        simp add: pod_count_def running_count_def node_summary_def)+
qed

lemma demo_pinged_registry:
  "clients demo_pinged =
     [''A'' \<mapsto> \<lparr>Name = ''A'', Address = ''http://a'', healthy = True, lastPing = 7\<rparr>,
      ''B'' \<mapsto> \<lparr>Name = ''B'', Address = ''http://b'', healthy = False, lastPing = 0\<rparr>,
      ''C'' \<mapsto> \<lparr>Name = ''C'', Address = ''http://c'', healthy = True, lastPing = 7\<rparr>]"
  by (rule ext)
    (simp add: demo_pinged_def pingAll_def ping_key_def demo_registry Ping_def
      NewNodeClient_def zero_time_def demo_net_def node_up_def node_down_def)

lemma demo_pinged_order: "iteration_order demo_pinged [''B'', ''A'', ''C'']"
  by (auto simp: iteration_order_def demo_pinged_registry)

lemma demo_pinged_snapshot:
  "snapshot demo_pinged [''B'', ''A'', ''C''] =
     [\<lparr>Name = ''B'', Address = ''http://b'', healthy = False, lastPing = 0\<rparr>,
      \<lparr>Name = ''A'', Address = ''http://a'', healthy = True, lastPing = 7\<rparr>,
      \<lparr>Name = ''C'', Address = ''http://c'', healthy = True, lastPing = 7\<rparr>]"
  by (simp add: snapshot_def demo_pinged_registry)

lemma demo_pinged_summary:
  "GetClusterSummary demo_net demo_pinged [''B'', ''A'', ''C''] =
     \<lparr>NodeCount = 3, HealthyNodes = 2, PodCount = 7, RunningPods = 1,
      Nodes =
        [\<lparr>ns_Name = ''B'', ns_Healthy = False, ns_PodCount = 0, ns_LastPing = 0\<rparr>,
         \<lparr>ns_Name = ''A'', ns_Healthy = True, ns_PodCount = 2, ns_LastPing = 7\<rparr>,
         \<lparr>ns_Name = ''C'', ns_Healthy = True, ns_PodCount = 5, ns_LastPing = 7\<rparr>]\<rparr>"
  by (simp add: GetClusterSummary_def demo_pinged_snapshot summary_step_def Let_def
      IsHealthy_def LastPing_def NodeClient_ListPods_def demo_net_def node_up_def node_down_def
      count_running_def PodRunning_def pod_web_def pod_db_def)

theorem GetClusterSummary_counts_witness:
  "iteration_order demo_pinged [''B'', ''A'', ''C''] \<and>
   GetClusterSummary demo_net demo_pinged [''B'', ''A'', ''C''] =
     \<lparr>NodeCount = 3, HealthyNodes = 2, PodCount = 7, RunningPods = 1,
      Nodes =
        [\<lparr>ns_Name = ''B'', ns_Healthy = False, ns_PodCount = 0, ns_LastPing = 0\<rparr>,
         \<lparr>ns_Name = ''A'', ns_Healthy = True, ns_PodCount = 2, ns_LastPing = 7\<rparr>,
         \<lparr>ns_Name = ''C'', ns_Healthy = True, ns_PodCount = 5, ns_LastPing = 7\<rparr>]\<rparr> \<and>
   card (dom (clients demo_pinged)) = 3 \<and>
   card {k \<in> dom (clients demo_pinged). \<exists>c. clients demo_pinged k = Some c \<and> IsHealthy c} = 2 \<and>
   (\<Sum>k\<in>dom (clients demo_pinged).
      case clients demo_pinged k of None \<Rightarrow> 0 | Some c \<Rightarrow> pod_count demo_net c) = 7 \<and>
   (\<Sum>k\<in>dom (clients demo_pinged).
      case clients demo_pinged k of None \<Rightarrow> 0 | Some c \<Rightarrow> running_count demo_net c) = 1"
  using GetClusterSummary_counts [OF demo_pinged_order, where net = demo_net]
    demo_pinged_order
  unfolding demo_pinged_summary
  by simp

section \<open>Who writes the health fields\<close>

lemma ping_key_other: "k' \<noteq> k \<Longrightarrow> clients (ping_key net clock k a) k' = clients a k'"
  by (simp add: ping_key_def split: option.split)

lemma ping_key_same:
  "clients (ping_key net clock k a) k = map_option (\<lambda>c. snd (Ping net (clock k) c)) (clients a k)"
  by (simp add: ping_key_def split: option.split)

lemma pingAll_clients:
  "distinct ord \<Longrightarrow>
   clients (pingAll net clock a ord) k =
     (if k \<in> set ord then map_option (\<lambda>c. snd (Ping net (clock k) c)) (clients a k)
      else clients a k)"
  unfolding pingAll_def
proof (induction ord arbitrary: a)
  case Nil
  show ?case by simp
next
  case (Cons x xs)
  from Cons.prems have d: "distinct xs" and nx: "x \<notin> set xs" by simp_all
  show ?case
  proof (cases "k = x")
    case True
    with nx Cons.IH [OF d, of "ping_key net clock x a"] show ?thesis
      by (simp add: ping_key_same)
  next
    case False
    with Cons.IH [OF d, of "ping_key net clock x a"] show ?thesis
      by (simp add: ping_key_other)
  qed
qed

lemma call_on_unchanged:
  assumes "\<And>c. snd (m c) = c"
  shows "call_on k m a = map_option (\<lambda>c. (fst (m c), c, a)) (clients a k)"
proof (cases "clients a k")
  case None
  then show ?thesis by (simp add: call_on_def)
next
  case (Some c)
  from assms [of c] have "m c = (fst (m c), c)" by (cases "m c") simp
  moreover from Some have "a\<lparr>clients := (clients a)(k \<mapsto> c)\<rparr> = a"
    by (simp add: map_upd_triv)
  ultimately show ?thesis using Some
    by (cases "m c") (simp add: call_on_def)
qed

lemma recv_results:
  "recv_IsHealthy c = (IsHealthy c, c)"
  "recv_LastPing c = (LastPing c, c)"
  "recv_ListPods net c = (NodeClient_ListPods net c, c)"
  "recv_GetPod net ns name c = (NodeClient_GetPod net c ns name, c)"
  "recv_CreatePod net pod c = (NodeClient_CreatePod net c pod, c)"
  "recv_DeletePod net ns name c = (NodeClient_DeletePod net c ns name, c)"
  "recv_GetPodLog net ns name c = (NodeClient_GetPodLog net c ns name, c)"
  "recv_GetNode net c = (NodeClient_GetNode net c, c)"
  by (simp_all add: recv_IsHealthy_def recv_LastPing_def recv_ListPods_def recv_GetPod_def
      recv_CreatePod_def recv_DeletePod_def recv_GetPodLog_def recv_GetNode_def
      IsHealthy_def LastPing_def NodeClient_ListPods_def NodeClient_GetPod_def
      NodeClient_CreatePod_def NodeClient_DeletePod_def NodeClient_GetPodLog_def
      NodeClient_GetNode_def)

lemma body_results:
  "ListAllPods_body net c = (listed_pods net c, c)"
  "ListAllNodes_body net c = (listed_node net c, c)"
  "summary_body net summary c = (summary_step net c summary, c)"
  "least_pods_body net c =
     ((if IsHealthy c
       then (case NodeClient_ListPods net c of
               Inl err \<Rightarrow> None
             | Inr list \<Rightarrow> Some (length (Items list)))
       else None,
       if IsHealthy c then [ListPodsCall (Name c)] else []), c)"
  by (simp_all add: ListAllPods_body_def ListAllNodes_body_def summary_body_def
      least_pods_body_def recv_results listed_pods_def listed_node_def summary_step_def
      Let_def split: sum.split)

lemma call_on_results:
  "call_on k (ListAllPods_body net) a = map_option (\<lambda>c. (listed_pods net c, c, a)) (clients a k)"
  "call_on k (ListAllNodes_body net) a = map_option (\<lambda>c. (listed_node net c, c, a)) (clients a k)"
  "call_on k (summary_body net summary) a =
     map_option (\<lambda>c. (summary_step net c summary, c, a)) (clients a k)"
  "call_on k (least_pods_body net) a =
     map_option (\<lambda>c. (fst (least_pods_body net c), c, a)) (clients a k)"
  "call_on k (recv_GetPod net ns name) a =
     map_option (\<lambda>c. (NodeClient_GetPod net c ns name, c, a)) (clients a k)"
  "call_on k (recv_CreatePod net pod) a =
     map_option (\<lambda>c. (NodeClient_CreatePod net c pod, c, a)) (clients a k)"
  "call_on k (recv_DeletePod net ns name) a =
     map_option (\<lambda>c. (NodeClient_DeletePod net c ns name, c, a)) (clients a k)"
  "call_on k (recv_GetPodLog net ns name) a =
     map_option (\<lambda>c. (NodeClient_GetPodLog net c ns name, c, a)) (clients a k)"
  "call_on k (recv_GetNode net) a =
     map_option (\<lambda>c. (NodeClient_GetNode net c, c, a)) (clients a k)"
  by (simp_all add: call_on_unchanged body_results recv_results)

lemma ListAllPods_run_result:
  "ListAllPods_run net ord allPods a =
     (allPods @ concat (map (listed_pods net) (snapshot a ord)), a)"
  by (induction ord arbitrary: allPods)
    (simp_all add: call_on_results snapshot_def split: option.split)

lemma ListAllNodes_run_result:
  "ListAllNodes_run net ord nodes a =
     (nodes @ concat (map (listed_node net) (snapshot a ord)), a)"
  by (induction ord arbitrary: nodes)
    (simp_all add: call_on_results snapshot_def split: option.split)

lemma GetPod_run_result:
  "GetPod_run net ns name ord a = (GetPod_scan net ns name (snapshot a ord), a)"
  by (induction ord)
    (simp_all add: call_on_results snapshot_def case_prod_beta split: option.split sum.split)

lemma summary_run_result:
  "summary_run net ord summary a = (fold (summary_step net) (snapshot a ord) summary, a)"
  by (induction ord arbitrary: summary)
    (simp_all add: call_on_results snapshot_def split: option.split)

lemma least_pods_run_result:
  "snd (least_pods_run net ord m tk a) = a \<and>
   snd (fst (least_pods_run net ord m tk a)) =
     snd (least_pods net (snapshot a ord) m (Option.bind tk (clients a))) \<and>
   Option.bind (fst (fst (least_pods_run net ord m tk a))) (clients a) =
     fst (least_pods net (snapshot a ord) m (Option.bind tk (clients a)))"
proof (induction ord arbitrary: m tk)
  case Nil
  show ?case by (simp add: snapshot_def)
next
  case (Cons k ks)
  show ?case
  proof (cases "clients a k")
    case None
    with Cons.IH [of m tk] show ?thesis
      by (simp add: call_on_results snapshot_def)
  next
    case (Some c)
    then have sn: "snapshot a (k # ks) = c # snapshot a ks"
      by (simp add: snapshot_def)
    from Some have co: "call_on k (least_pods_body net) a = Some (fst (least_pods_body net c), c, a)"
      by (simp add: call_on_results)
    show ?thesis
    proof (cases "IsHealthy c")
      case False
      with Cons.IH [of m tk] show ?thesis
        by (simp add: co sn body_results case_prod_beta)
    next
      case True
      show ?thesis
      proof (cases "NodeClient_ListPods net c")
        case (Inl err)
        with True Cons.IH [of m tk] show ?thesis
          by (simp add: co sn body_results case_prod_beta)
      next
        case (Inr list)
        show ?thesis
        proof (cases "length (Items list) < m")
          case less: True
          with True Inr Some Cons.IH [of "length (Items list)" "Some k"] show ?thesis
            by (simp add: co sn body_results case_prod_beta)
        next
          case False
          with True Inr Cons.IH [of m tk] show ?thesis
            by (simp add: co sn body_results case_prod_beta)
        qed
      qed
    qed
  qed
qed

lemma st_results:
  "ListAllPods_st net ord a = (ListAllPods net a ord, a)"
  "ListAllNodes_st net ord a = (ListAllNodes net a ord, a)"
  "GetPod_st net ord ns name a = (GetPod net a ord ns name, a)"
  "GetClusterSummary_st net ord a = (GetClusterSummary net a ord, a)"
  "GetNode_st net name a = (GetNode net a name, a)"
  by (simp_all add: ListAllPods_st_def ListAllPods_def ListAllPods_run_result
      ListAllNodes_st_def ListAllNodes_def ListAllNodes_run_result
      GetPod_st_def GetPod_def GetPod_run_result
      GetClusterSummary_st_def GetClusterSummary_def summary_run_result
      GetNode_st_def GetNode_def call_on_results split: option.split)

lemma DeletePod_st_result:
  "DeletePod_st net ord ns name a = (DeletePod net a ord ns name, a)"
  by (cases "GetPod net a ord ns name")
    (simp add: DeletePod_st_def DeletePod_def st_results call_on_results
      split: sum.split option.split)

lemma GetPodLog_st_result:
  "GetPodLog_st net ord ns name a = (GetPodLog net a ord ns name, a)"
  by (cases "GetPod net a ord ns name")
    (simp add: GetPodLog_st_def GetPodLog_def st_results call_on_results
      split: sum.split option.split)

lemma CreatePod_st_result:
  "CreatePod_st net ord pod a = (CreatePod net a ord pod, a)"
proof (cases "NodeName pod = []")
  case False
  then show ?thesis
    by (simp add: CreatePod_st_def CreatePod_def call_on_results split: option.split)
next
  case True
  obtain tk t a' where run: "least_pods_run net ord max_int None a = ((tk, t), a')"
    by (cases "least_pods_run net ord max_int None a") auto
  obtain tg t' where pure: "least_pods net (snapshot a ord) max_int None = (tg, t')"
    by (cases "least_pods net (snapshot a ord) max_int None")
  from least_pods_run_result [of net ord max_int None a] run pure
  have "a' = a" "t = t'" "Option.bind tk (clients a) = tg"
    by simp_all
  with True run pure show ?thesis
    by (cases tk)
      (simp_all add: CreatePod_st_def CreatePod_def call_on_results split: option.split)
qed

lemma serve_reads: "req \<noteq> HealthCheckReq \<Longrightarrow> snd (serve net clock ord req a) = a"
  by (cases req)
    (simp_all add: st_results DeletePod_st_result GetPodLog_st_result CreatePod_st_result)

lemma run_reads:
  "\<forall>s\<in>set steps. snd (snd (snd s)) \<noteq> HealthCheckReq \<Longrightarrow> run steps a = a"
proof (induction steps arbitrary: a)
  case Nil
  show ?case by simp
next
  case (Cons s steps)
  obtain net clock ord req where s: "s = (net, clock, ord, req)" by (cases s)
  with Cons.prems have "req \<noteq> HealthCheckReq" by simp
  then have "snd (serve net clock ord req a) = a" by (rule serve_reads)
  with Cons s show ?case by simp
qed

text \<open>
  C8. Each of \<^verbatim>\<open>ListAllPods\<close>, \<^verbatim>\<open>ListAllNodes\<close>, \<^verbatim>\<open>GetPod\<close>, \<^verbatim>\<open>CreatePod\<close>,
  \<^verbatim>\<open>DeletePod\<close>, \<^verbatim>\<open>GetPodLog\<close>, \<^verbatim>\<open>GetClusterSummary\<close> and \<^verbatim>\<open>GetNode\<close>, with every
  client passed through every method it calls on it, hands back the registry it was
  given, every client with the \<open>healthy\<close> flag and the \<open>lastPing\<close> it had, and returns
  what the operation without the passing returns. So a run of these operations with no
  health check among them leaves the registry as it was. A pass of the health checker
  changes a client by \<^verbatim>\<open>Ping\<close> and by nothing else: each client visited becomes what
  \<^verbatim>\<open>Ping\<close> returns for it, the others stay as they are.
\<close>

theorem health_fields_frame:
  "ListAllPods_st net ord a = (ListAllPods net a ord, a) \<and>
   ListAllNodes_st net ord a = (ListAllNodes net a ord, a) \<and>
   GetPod_st net ord ns name a = (GetPod net a ord ns name, a) \<and>
   CreatePod_st net ord pod a = (CreatePod net a ord pod, a) \<and>
   DeletePod_st net ord ns name a = (DeletePod net a ord ns name, a) \<and>
   GetPodLog_st net ord ns name a = (GetPodLog net a ord ns name, a) \<and>
   GetClusterSummary_st net ord a = (GetClusterSummary net a ord, a) \<and>
   GetNode_st net name a = (GetNode net a name, a) \<and>
   ((\<forall>s\<in>set steps. snd (snd (snd s)) \<noteq> HealthCheckReq) \<longrightarrow>
      run steps a = a \<and>
      (\<forall>k. map_option healthy (clients (run steps a) k) = map_option healthy (clients a k)) \<and>
      (\<forall>k. map_option lastPing (clients (run steps a) k) = map_option lastPing (clients a k))) \<and>
   (req \<noteq> HealthCheckReq \<longrightarrow> snd (serve net clock ord req a) = a) \<and>
   (distinct ord \<longrightarrow>
      clients (snd (serve net clock ord HealthCheckReq a)) k =
        (if k \<in> set ord then map_option (\<lambda>c. snd (Ping net (clock k) c)) (clients a k)
         else clients a k))"
proof (intro conjI impI)
  show "ListAllPods_st net ord a = (ListAllPods net a ord, a)"
    and "ListAllNodes_st net ord a = (ListAllNodes net a ord, a)"
    and "GetPod_st net ord ns name a = (GetPod net a ord ns name, a)"
    and "GetClusterSummary_st net ord a = (GetClusterSummary net a ord, a)"
    and "GetNode_st net name a = (GetNode net a name, a)"
    by (rule st_results)+
  show "CreatePod_st net ord pod a = (CreatePod net a ord pod, a)"
    by (rule CreatePod_st_result)
  show "DeletePod_st net ord ns name a = (DeletePod net a ord ns name, a)"
    by (rule DeletePod_st_result)
  show "GetPodLog_st net ord ns name a = (GetPodLog net a ord ns name, a)"
    by (rule GetPodLog_st_result)
next
  assume r: "\<forall>s\<in>set steps. snd (snd (snd s)) \<noteq> HealthCheckReq"
  from run_reads [OF r] show "run steps a = a" .
  from run_reads [OF r, of a]
  show "\<forall>k. map_option healthy (clients (run steps a) k) = map_option healthy (clients a k)"
    and "\<forall>k. map_option lastPing (clients (run steps a) k) = map_option lastPing (clients a k)"
    by simp_all
next
  assume "req \<noteq> HealthCheckReq"
  then show "snd (serve net clock ord req a) = a" by (rule serve_reads)
next
  assume "distinct ord"
  then show "clients (snd (serve net clock ord HealthCheckReq a)) k =
        (if k \<in> set ord then map_option (\<lambda>c. snd (Ping net (clock k) c)) (clients a k)
         else clients a k)"
    by (simp add: pingAll_clients)
qed

theorem health_fields_frame_witness:
  "snd (CreatePod_st demo_net [''B'', ''A'', ''C''] (pod_for []) demo_agg) = demo_agg \<and>
   map_option healthy
     (clients (snd (CreatePod_st demo_net [''B'', ''A'', ''C''] (pod_for []) demo_agg)) ''B'') =
     Some True \<and>
   map_option lastPing
     (clients (snd (GetClusterSummary_st demo_net [''B'', ''A'', ''C''] demo_pinged)) ''A'') =
     Some 7 \<and>
   run demo_reads demo_agg = demo_agg \<and>
   map_option healthy (clients (run demo_reads demo_agg) ''B'') = Some True \<and>
   map_option healthy
     (clients (snd (serve demo_net (\<lambda>k. 7) [''B'', ''A'', ''C''] HealthCheckReq demo_agg)) ''B'') =
     Some False \<and>
   map_option lastPing
     (clients (snd (serve demo_net (\<lambda>k. 7) [''B'', ''A'', ''C''] HealthCheckReq demo_agg)) ''A'') =
     Some 7"
proof -
  have r: "\<forall>s\<in>set demo_reads. snd (snd (snd s)) \<noteq> HealthCheckReq"
    by (simp add: demo_reads_def)
  have d: "distinct [''B'', ''A'', ''C'']" by simp
  note frame = health_fields_frame [where steps = demo_reads and a = demo_agg
      and net = demo_net and clock = "\<lambda>k. 7" and ord = "[''B'', ''A'', ''C'']"]
  from frame r have same: "run demo_reads demo_agg = demo_agg" by blast
  from frame [where pod = "pod_for []"]
  have st: "snd (CreatePod_st demo_net [''B'', ''A'', ''C''] (pod_for []) demo_agg) = demo_agg"
    by simp
  from frame [where k = "''B''"] d
  have "clients (snd (serve demo_net (\<lambda>k. 7) [''B'', ''A'', ''C''] HealthCheckReq demo_agg)) ''B'' =
      map_option (\<lambda>c. snd (Ping demo_net 7 c)) (clients demo_agg ''B'')"
    by simp
  then have b: "map_option healthy
     (clients (snd (serve demo_net (\<lambda>k. 7) [''B'', ''A'', ''C''] HealthCheckReq demo_agg)) ''B'') =
     Some False"
    by (simp add: demo_registry Ping_def NewNodeClient_def demo_net_def node_down_def)
  from frame [where k = "''A''"] d
  have "clients (snd (serve demo_net (\<lambda>k. 7) [''B'', ''A'', ''C''] HealthCheckReq demo_agg)) ''A'' =
      map_option (\<lambda>c. snd (Ping demo_net 7 c)) (clients demo_agg ''A'')"
    by simp
  then have a: "map_option lastPing
     (clients (snd (serve demo_net (\<lambda>k. 7) [''B'', ''A'', ''C''] HealthCheckReq demo_agg)) ''A'') =
     Some 7"
    by (simp add: demo_registry Ping_def NewNodeClient_def demo_net_def node_up_def)
  have e1: "map_option healthy
     (clients (snd (CreatePod_st demo_net [''B'', ''A'', ''C''] (pod_for []) demo_agg)) ''B'') =
     Some True"
    by (simp add: CreatePod_st_def pod_for_def call_on_def least_pods_body_def
        recv_IsHealthy_def recv_ListPods_def recv_CreatePod_def demo_registry
        NewNodeClient_def demo_net_def node_up_def node_down_def max_int_def)
  have e2: "map_option lastPing
     (clients (snd (GetClusterSummary_st demo_net [''B'', ''A'', ''C''] demo_pinged)) ''A'') =
     Some 7"
    by (simp add: GetClusterSummary_st_def call_on_def summary_body_def
        recv_IsHealthy_def recv_LastPing_def recv_ListPods_def demo_pinged_registry
        demo_net_def node_up_def node_down_def Let_def)
  from st same a b e1 e2 show ?thesis
    by (simp add: demo_registry NewNodeClient_def)
qed

end
